theory Spec2Isabelle
  imports Complex_Main "HOL-Library.AList" "HOL-Library.Sublist" "HOL-Library.Monad_Syntax"
    "HOL-Library.Log_Nat"
begin

section \<open>Data model (packages/main/src/types.ts)\<close>

text \<open>
  JavaScript strings are modelled as \<^typ>\<open>string\<close>, one \<^typ>\<open>char\<close> per code unit
  (code units above 255 are outside the model).  Byte sizes, widths, rates and the
  exit code are integers.  A finite double is the rational it stands for: the
  arithmetic of the progress percentage, of the remaining time and of the target
  bit rate rounds the result of every operation to the nearest double
  (\<open>round_double\<close> below), and the ratio of a history entry is the exact quotient of
  the two sizes.
\<close>

type_synonym job_id = string

datatype job_status = Waiting | Running | Paused | Completed | Failed | Cancelled

text \<open>\<open>CompressionPreset\<close>; an optional member is an \<open>option\<close> (\<open>None\<close> is \<open>undefined\<close>).\<close>

record video_settings =
  v_codec :: string
  crf :: "nat option"
  v_bitrate :: "string option"
  v_preset :: string
  profile :: "string option"
  level :: "string option"
  pixelFormat :: string
  maxWidth :: "nat option"
  maxHeight :: "nat option"
  fps :: "nat option"
  twoPass :: bool

record audio_settings =
  a_codec :: string
  a_bitrate :: string
  sampleRate :: "nat option"
  channels :: "nat option"

record compression_preset =
  preset_id :: string
  preset_name :: string
  video :: "video_settings option"
  audio :: "audio_settings option"
  removeVideo :: "bool option"
  removeAudio :: "bool option"

text \<open>
  \<open>Partial<CompressionPreset>\<close>: every key is either absent from the object or
  present with a value of the member's type (which, for an optional member,
  may itself be \<open>undefined\<close>).
\<close>

datatype 'a override = Absent | Present 'a

record custom_settings =
  cs_id :: "string override"
  cs_name :: "string override"
  cs_video :: "video_settings option override"
  cs_audio :: "audio_settings option override"
  cs_removeVideo :: "bool option override"
  cs_removeAudio :: "bool option override"

record job_config =
  inputPath :: string
  outputPath :: string
  preset :: compression_preset
  targetSize :: "nat option"
  customSettings :: "custom_settings option"

text \<open>The \<open>ChildProcess\<close> handle; the model needs only its presence.\<close>

datatype child_process = ChildProcess

record active_job =
  jobId :: job_id
  config :: job_config
  process :: "child_process option"
  status :: job_status
  progress :: rat
  startTime :: "int option"
  error :: "string option"
  outputSize :: "nat option"

text \<open>A JavaScript number that may be \<open>NaN\<close> or infinite (the result of a division).\<close>

datatype jsnum = Fin rat | PosInf | NegInf | NaN

text \<open>The operator \<open>/\<close> on two finite numbers.\<close>

definition js_div :: "rat \<Rightarrow> rat \<Rightarrow> jsnum" where
  "js_div a b =
     (if b = 0 then (if a = 0 then NaN else if a > 0 then PosInf else NegInf)
      else Fin (a / b))"

datatype history_status = Success | HFailed

record history_item =
  h_inputPath :: string
  h_outputPath :: string
  h_preset :: string
  originalSize :: nat
  compressedSize :: nat
  compressionRatio :: jsnum
  duration :: int
  h_status :: history_status
  h_error :: "string option"

record job_progress =
  pr_jobId :: job_id
  fileId :: string
  pr_status :: job_status
  pr_progress :: rat
  pr_speed :: "string option"
  pr_fps :: "string option"
  pr_bitrate :: "string option"
  pr_size :: "string option"
  pr_time :: "string option"
  pr_eta :: "string option"

text \<open>
  The payload of a \<open>log\<close> event: the message is kept as its template and arguments
  (\<open>basename\<close> and \<open>formatBytes\<close> are not applied).
\<close>

datatype log_message = JobCompletedMsg string nat | JobFailedMsg string string

datatype event =
    ProgressEv job_progress
  | CompletedEv job_id bool "string option"
  | LogInfo log_message int
  | LogError log_message int

datatype signal = SIGKILL | SIGSTOP | SIGCONT

text \<open>
  What the manager does, in program order.  \<open>Emitted\<close>, \<open>HistoryAdded\<close>,
  \<open>Signalled\<close> and \<open>Spawned\<close> are the calls \<open>this.emit\<close>,
  \<open>historyManager.addItem\<close>, \<open>process.kill\<close> and \<open>spawn\<close>.  \<open>Submitted\<close> marks
  \<open>jobQueue.push\<close> in \<open>startJob\<close> and \<open>Admitted\<close> marks the assignment
  \<open>job.status = 'running'\<close> in \<open>executeJob\<close>; these two record the order of
  submissions and admissions and influence nothing.
\<close>

datatype action =
    Submitted job_id
  | Admitted job_id
  | Spawned job_id "string list"
  | Signalled job_id signal
  | Emitted event
  | HistoryAdded history_item

text \<open>
  An \<open>Error\<close> thrown by the source, with its message, and the error of
  \<open>statSync\<close> on a path that does not exist.
\<close>

datatype js_error = Error string | ENOENT string

text \<open>
  What the code reads from outside at one turn of the event loop: the file system
  (\<open>existsSync\<close>, \<open>statSync(p).size\<close>), the clock, the platform, the \<open>path\<close>
  library and whether \<open>mkdirSync\<close> or \<open>spawn\<close> throw.
\<close>

record env =
  fileSize :: "string \<Rightarrow> nat option"
  now :: int
  win32 :: bool
  dirname :: "string \<Rightarrow> string"
  uniqueName :: "string \<Rightarrow> string \<Rightarrow> int \<Rightarrow> string"
  mkdirThrows :: "string \<Rightarrow> string option"
  spawnThrows :: "string list \<Rightarrow> string option"

definition existsSync :: "env \<Rightarrow> string \<Rightarrow> bool" where
  "existsSync e p = (fileSize e p \<noteq> None)"

text \<open>
  The fields of \<open>JobManager\<close>.  \<open>activeJobs\<close> is a \<open>Map\<close>, kept in insertion order.
  \<open>stderrBuf\<close> holds the closure variable \<open>stderr\<close> of each \<open>executeJob\<close> call, and
  \<open>pending\<close> the calls of \<open>executeJob\<close> that are suspended at their \<open>await\<close>.
\<close>

record jm_state =
  activeJobs :: "(job_id \<times> active_job) list"
  jobQueue :: "job_id list"
  runningJobs :: "job_id list"
  ffmpegPath :: string
  stderrBuf :: "job_id \<Rightarrow> string"
  pending :: "job_id list"
  trace :: "action list"

definition init :: "string \<Rightarrow> jm_state" where
  "init p = \<lparr>activeJobs = [], jobQueue = [], runningJobs = [], ffmpegPath = p,
     stderrBuf = (\<lambda>_. []), pending = [], trace = []\<rparr>"

section \<open>Numbers and strings\<close>

definition digit_char :: "nat \<Rightarrow> char" where
  "digit_char d = ''0123456789'' ! d"

function show_nat :: "nat \<Rightarrow> string" where
  "show_nat n = (if n < 10 then [digit_char n] else show_nat (n div 10) @ [digit_char (n mod 10)])"
  by pat_completeness auto
termination
  by (relation "measure id") auto

declare show_nat.simps [simp del]

definition show_int :: "int \<Rightarrow> string" where
  "show_int i = (if i < 0 then CHR ''-'' # show_nat (nat (- i)) else show_nat (nat i))"

text \<open>Truthiness of an optional string, number or boolean.\<close>

definition truthy_str :: "string option \<Rightarrow> bool" where
  "truthy_str x = (case x of None \<Rightarrow> False | Some s \<Rightarrow> s \<noteq> [])"

definition truthy_num :: "nat option \<Rightarrow> bool" where
  "truthy_num x = (case x of None \<Rightarrow> False | Some n \<Rightarrow> n \<noteq> 0)"

definition truthy_bool :: "bool option \<Rightarrow> bool" where
  "truthy_bool x = (x = Some True)"

definition is_digit :: "char \<Rightarrow> bool" where
  "is_digit c = (c \<in> set ''0123456789'')"

text \<open>White space as \<open>\s\<close> and \<open>parseInt\<close> see it, among the code units below 256.\<close>

definition is_space :: "char \<Rightarrow> bool" where
  "is_space c = (c \<in> set [CHR 0x09, CHR 0x0A, CHR 0x0B, CHR 0x0C, CHR 0x0D, CHR 0x20, CHR 0xA0])"

definition digit_val :: "char \<Rightarrow> nat option" where
  "digit_val c = (let n = (of_char c :: nat) in
     if 48 \<le> n \<and> n \<le> 57 then Some (n - 48)
     else if 97 \<le> n \<and> n \<le> 122 then Some (n - 87)
     else if 65 \<le> n \<and> n \<le> 90 then Some (n - 55)
     else None)"

definition radix_digit :: "nat \<Rightarrow> char \<Rightarrow> bool" where
  "radix_digit r c = (case digit_val c of None \<Rightarrow> False | Some v \<Rightarrow> v < r)"

definition radix_value :: "nat \<Rightarrow> string \<Rightarrow> nat" where
  "radix_value r ds = foldl (\<lambda>acc c. acc * r + the (digit_val c)) 0 ds"

text \<open>
  \<open>parseInt(s)\<close> with no radix: leading white space, a sign, a \<open>0x\<close> prefix for
  base 16, then the longest run of digits; \<open>None\<close> is \<open>NaN\<close>.
\<close>

definition parseInt :: "string \<Rightarrow> int option" where
  "parseInt s = (let
       s1 = dropWhile is_space s;
       neg = (s1 \<noteq> [] \<and> hd s1 = CHR ''-'');
       s2 = (if s1 \<noteq> [] \<and> (hd s1 = CHR ''+'' \<or> hd s1 = CHR ''-'') then tl s1 else s1);
       hex = (take 2 s2 = ''0x'' \<or> take 2 s2 = ''0X'');
       r = (if hex then 16 else 10);
       ds = takeWhile (radix_digit r) (if hex then drop 2 s2 else s2)
     in if ds = [] then None
        else Some ((if neg then - 1 else 1) * int (radix_value r ds)))"

text \<open>\<open>s.replace(c, '')\<close> for a one-character pattern: the first occurrence goes.\<close>

definition replace_first :: "char \<Rightarrow> string \<Rightarrow> string" where
  "replace_first c s = remove1 c s"

text \<open>\<open>s.slice(-n)\<close>: the last \<open>n\<close> code units, the whole string when it is shorter.\<close>

definition slice_last :: "nat \<Rightarrow> string \<Rightarrow> string" where
  "slice_last n s = drop (length s - n) s"

text \<open>
  Doubles.  A finite double is a rational \<open>m * 2 ^ e\<close> with \<open>\<bar>m\<bar> < 2 ^ 53\<close> and
  \<open>- 1074 \<le> e\<close>; an operation of the source returns the double nearest to the exact
  result, the one with the even significand when two are equally near.  For \<open>x\<close>
  other than 0, \<open>exponent2 \<bar>x\<bar>\<close> is the \<open>k\<close> with \<open>2 ^ k \<le> \<bar>x\<bar> < 2 ^ (k + 1)\<close>; below
  \<open>2 ^ (- 1022)\<close> the spacing of the doubles stays \<open>2 ^ (- 1074)\<close>.  Overflow to an
  infinity (from \<open>2 ^ 1024\<close> on) is outside the model: sizes and clock readings are
  integers below \<open>2 ^ 53\<close>.
\<close>

definition pow2 :: "int \<Rightarrow> rat" where
  "pow2 k = (if 0 \<le> k then 2 ^ nat k else 1 / 2 ^ nat (- k))"

definition exponent2 :: "rat \<Rightarrow> int" where
  "exponent2 x = (case quotient_of x of (n, d) \<Rightarrow>
     (let k = bitlen n - bitlen d in if pow2 k \<le> x then k else k - 1))"

definition round_half_even :: "rat \<Rightarrow> int" where
  "round_half_even x = (let f = \<lfloor>x\<rfloor>; r = x - of_int f in
     if r < 1 / 2 then f else if 1 / 2 < r then f + 1 else if even f then f else f + 1)"

definition round_double :: "rat \<Rightarrow> rat" where
  "round_double x = (if x = 0 then 0 else (let
       e = max (exponent2 \<bar>x\<bar>) (- 1022);
       ulp = pow2 (e - 52)
     in sgn x * of_int (round_half_even (\<bar>x\<bar> / ulp)) * ulp))"

text \<open>The operators \<open>+\<close>, \<open>-\<close>, \<open>*\<close> and \<open>/\<close> (by a divisor other than 0) on finite doubles.\<close>

definition fadd :: "rat \<Rightarrow> rat \<Rightarrow> rat" where
  "fadd x y = round_double (x + y)"

definition fsub :: "rat \<Rightarrow> rat \<Rightarrow> rat" where
  "fsub x y = round_double (x - y)"

definition fmul :: "rat \<Rightarrow> rat \<Rightarrow> rat" where
  "fmul x y = round_double (x * y)"

definition fdiv :: "rat \<Rightarrow> rat \<Rightarrow> rat" where
  "fdiv x y = round_double (x / y)"

text \<open>\<open>Math.round\<close> on a finite number.\<close>

definition math_round :: "rat \<Rightarrow> int" where
  "math_round x = \<lfloor>x + 1 / 2\<rfloor>"

section \<open>Argument building (JobManager.buildFfmpegArgs and helpers)\<close>

definition spread :: "'a \<Rightarrow> 'a override \<Rightarrow> 'a" where
  "spread v ov = (case ov of Absent \<Rightarrow> v | Present w \<Rightarrow> w)"

text \<open>\<open>config.customSettings ? { ...preset, ...config.customSettings } : preset\<close>\<close>

definition effectivePreset :: "job_config \<Rightarrow> compression_preset" where
  "effectivePreset c = (case customSettings c of
       None \<Rightarrow> preset c
     | Some cs \<Rightarrow>
         \<lparr>preset_id = spread (preset_id (preset c)) (cs_id cs),
          preset_name = spread (preset_name (preset c)) (cs_name cs),
          video = spread (video (preset c)) (cs_video cs),
          audio = spread (audio (preset c)) (cs_audio cs),
          removeVideo = spread (removeVideo (preset c)) (cs_removeVideo cs),
          removeAudio = spread (removeAudio (preset c)) (cs_removeAudio cs)\<rparr>)"

definition calculateTargetBitrate :: "nat \<Rightarrow> string \<Rightarrow> compression_preset \<Rightarrow> string" where
  "calculateTargetBitrate targetSizeBytes inPath p = (let
       durationSeconds = (60 :: rat);
       audioBitrate = (case audio p of
           Some a \<Rightarrow> parseInt (replace_first CHR ''k'' (a_bitrate a))
         | None \<Rightarrow> Some 128)
     in case audioBitrate of
          None \<Rightarrow> ''NaNk''
        | Some ab \<Rightarrow> (let
            targetBitsPerSecond = fdiv (fmul (of_nat targetSizeBytes) 8) durationSeconds;
            videoBitrate = max 300 (min 8000 (fsub targetBitsPerSecond (of_int ab)))
          in show_int (math_round videoBitrate) @ ''k''))"

definition buildScaleFilter :: "nat option \<Rightarrow> nat option \<Rightarrow> string" where
  "buildScaleFilter mw mh =
     (if \<not> truthy_num mw \<and> \<not> truthy_num mh then ''scale=-1:-1''
      else if truthy_num mw \<and> truthy_num mh then
        ''scale='' @ [CHR 0x27] @ ''min('' @ show_nat (the mw) @ '',iw)'' @ [CHR 0x27] @ '':''
          @ [CHR 0x27] @ ''min('' @ show_nat (the mh) @ '',ih)'' @ [CHR 0x27]
          @ '':force_original_aspect_ratio=decrease''
      else if truthy_num mw then ''scale='' @ show_nat (the mw) @ '':-1''
      else ''scale=-1:'' @ show_nat (the mh))"

definition buildTwoPassArgs :: "env \<Rightarrow> job_config \<Rightarrow> compression_preset \<Rightarrow> string list" where
  "buildTwoPassArgs e c p = (let
       targetBitrate = calculateTargetBitrate (the (targetSize c)) (inputPath c) p
     in [''-i'', inputPath c, ''-c:v'', v_codec (the (video p)), ''-b:v'', targetBitrate,
         ''-pass'', ''1'', ''-an'', ''-f'', ''mp4'']
        @ (if win32 e then [''NUL''] else [''/dev/null'']))"

definition videoArgs :: "compression_preset \<Rightarrow> string list" where
  "videoArgs p = (case video p of
       Some v \<Rightarrow>
         if \<not> truthy_bool (removeVideo p) then
           [''-c:v'', v_codec v]
           @ (case crf v of Some q \<Rightarrow> [''-crf'', show_nat q] | None \<Rightarrow> [])
           @ (if truthy_str (v_bitrate v) then [''-b:v'', the (v_bitrate v)] else [])
           @ [''-preset'', v_preset v]
           @ (if truthy_str (profile v) then [''-profile:v'', the (profile v)] else [])
           @ (if truthy_str (level v) then [''-level'', the (level v)] else [])
           @ [''-pix_fmt'', pixelFormat v]
           @ (if truthy_num (maxWidth v) \<or> truthy_num (maxHeight v)
              then [''-vf'', buildScaleFilter (maxWidth v) (maxHeight v)] else [])
           @ (if truthy_num (fps v) then [''-r'', show_nat (the (fps v))] else [])
         else [''-vn'']
     | None \<Rightarrow> if truthy_bool (removeVideo p) then [''-vn''] else [])"

definition audioArgs :: "compression_preset \<Rightarrow> string list" where
  "audioArgs p = (case audio p of
       Some a \<Rightarrow>
         if \<not> truthy_bool (removeAudio p) then
           [''-c:a'', a_codec a, ''-b:a'', a_bitrate a]
           @ (if truthy_num (sampleRate a) then [''-ar'', show_nat (the (sampleRate a))] else [])
           @ (if truthy_num (channels a) then [''-ac'', show_nat (the (channels a))] else [])
         else [''-an'']
     | None \<Rightarrow> if truthy_bool (removeAudio p) then [''-an''] else [])"

definition buildFfmpegArgs :: "env \<Rightarrow> job_config \<Rightarrow> string list" where
  "buildFfmpegArgs e c = (let p = effectivePreset c in
     if truthy_num (targetSize c) \<and> (case video p of Some v \<Rightarrow> twoPass v | None \<Rightarrow> False)
     then buildTwoPassArgs e c p
     else [''-i'', inputPath c] @ videoArgs p @ audioArgs p @ [''-y'', outputPath c])"

section \<open>Progress parsing (JobManager.parseProgress)\<close>

text \<open>
  \<open>stderr.match(re)\<close> with a regular expression without the \<open>g\<close> flag returns the
  leftmost match: the expression is tried at the first position, then at the
  second, and so on.  Each of the five expressions is a keyword followed by
  greedy character classes that are disjoint from what follows them, so that trying
  it at one position needs no backtracking.  A match is returned with the text
  that follows it.
\<close>

fun re_search :: "(string \<Rightarrow> 'a option) \<Rightarrow> string \<Rightarrow> 'a option" where
  "re_search m [] = m []"
| "re_search m (c # cs) = (case m (c # cs) of Some r \<Rightarrow> Some r | None \<Rightarrow> re_search m cs)"

definition strip_prefix :: "string \<Rightarrow> string \<Rightarrow> string option" where
  "strip_prefix p s = (if take (length p) s = p then Some (drop (length p) s) else None)"

definition two_digits :: "string \<Rightarrow> (string \<times> string) option" where
  "two_digits s = (case s of
       a # b # r \<Rightarrow> if is_digit a \<and> is_digit b then Some ([a, b], r) else None
     | _ \<Rightarrow> None)"

definition is_num :: "char \<Rightarrow> bool" where
  "is_num c = (is_digit c \<or> c = CHR ''.'')"

definition is_kmg :: "char \<Rightarrow> bool" where
  "is_kmg c = (c \<in> set ''kmg'')"

text \<open>\<open>/time=(\d{2}):(\d{2}):(\d{2}\.\d{2})/\<close>\<close>

definition time_at :: "string \<Rightarrow> ((string \<times> string \<times> string) \<times> string) option" where
  "time_at s = do {
     r1 \<leftarrow> strip_prefix ''time='' s;
     (h, r2) \<leftarrow> two_digits r1;
     r3 \<leftarrow> strip_prefix '':'' r2;
     (m, r4) \<leftarrow> two_digits r3;
     r5 \<leftarrow> strip_prefix '':'' r4;
     (s1, r6) \<leftarrow> two_digits r5;
     r7 \<leftarrow> strip_prefix ''.'' r6;
     (s2, r8) \<leftarrow> two_digits r7;
     Some ((h, m, s1 @ ''.'' @ s2), r8)
   }"

text \<open>\<open>/speed=\s*([0-9.]+)x/\<close>\<close>

definition speed_at :: "string \<Rightarrow> (string \<times> string) option" where
  "speed_at s = do {
     r1 \<leftarrow> strip_prefix ''speed='' s;
     let r2 = dropWhile is_space r1;
     let v = takeWhile is_num r2;
     r3 \<leftarrow> strip_prefix ''x'' (dropWhile is_num r2);
     if v \<noteq> [] then Some (v, r3) else None
   }"

text \<open>\<open>/fps=\s*([0-9.]+)/\<close>\<close>

definition fps_at :: "string \<Rightarrow> (string \<times> string) option" where
  "fps_at s = do {
     r1 \<leftarrow> strip_prefix ''fps='' s;
     let r2 = dropWhile is_space r1;
     let v = takeWhile is_num r2;
     if v \<noteq> [] then Some (v, dropWhile is_num r2) else None
   }"

text \<open>\<open>/bitrate=\s*([0-9.]+[kmg]?bits\/s)/\<close>\<close>

definition bitrate_at :: "string \<Rightarrow> (string \<times> string) option" where
  "bitrate_at s = do {
     r1 \<leftarrow> strip_prefix ''bitrate='' s;
     let r2 = dropWhile is_space r1;
     let v = takeWhile is_num r2;
     let r3 = dropWhile is_num r2;
     let u = takeWhile is_kmg (take 1 r3);
     r4 \<leftarrow> strip_prefix ''bits/s'' (drop (length u) r3);
     if v \<noteq> [] then Some (v @ u @ ''bits/s'', r4) else None
   }"

text \<open>\<open>/size=\s*([0-9]+[kmg]?B)/\<close>\<close>

definition size_at :: "string \<Rightarrow> (string \<times> string) option" where
  "size_at s = do {
     r1 \<leftarrow> strip_prefix ''size='' s;
     let r2 = dropWhile is_space r1;
     let v = takeWhile is_digit r2;
     let r3 = dropWhile is_digit r2;
     let u = takeWhile is_kmg (take 1 r3);
     r4 \<leftarrow> strip_prefix ''B'' (drop (length u) r3);
     if v \<noteq> [] then Some (v @ u @ ''B'', r4) else None
   }"

text \<open>
  \<open>parseFloat\<close> on an unsigned decimal literal without exponent, which is all the
  third group of the time expression can hold: the double nearest to the decimal
  value; \<open>None\<close> is \<open>NaN\<close>.
\<close>

definition parseFloat :: "string \<Rightarrow> rat option" where
  "parseFloat s = (let
       ip = takeWhile is_digit s;
       r = dropWhile is_digit s;
       fp = (if r \<noteq> [] \<and> hd r = CHR ''.'' then takeWhile is_digit (tl r) else [])
     in if ip = [] \<and> fp = [] then None
        else Some (round_double
               (of_nat (radix_value 10 ip) + of_nat (radix_value 10 fp) / 10 ^ length fp)))"

text \<open>
  The remainder operator \<open>%\<close>: the sign follows the dividend.  The remainder of two
  doubles is a double, so nothing is rounded.
\<close>

definition js_rem :: "rat \<Rightarrow> rat \<Rightarrow> rat" where
  "js_rem x y = x - y * of_int (if 0 \<le> x / y then \<lfloor>x / y\<rfloor> else \<lceil>x / y\<rceil>)"

definition padStart2 :: "string \<Rightarrow> string" where
  "padStart2 s = (if length s < 2 then replicate (2 - length s) CHR ''0'' @ s else s)"

definition formatDuration :: "rat \<Rightarrow> string" where
  "formatDuration seconds = (let
       hours = \<lfloor>fdiv seconds 3600\<rfloor>;
       minutes = \<lfloor>fdiv (js_rem seconds 3600) 60\<rfloor>;
       secs = \<lfloor>js_rem seconds 60\<rfloor>
     in if hours > 0
        then show_int hours @ '':'' @ padStart2 (show_int minutes) @ '':'' @ padStart2 (show_int secs)
        else show_int minutes @ '':'' @ padStart2 (show_int secs))"

definition getJob :: "jm_state \<Rightarrow> job_id \<Rightarrow> active_job option" where
  "getJob s j = map_of (activeJobs s) j"

definition setJob :: "job_id \<Rightarrow> active_job \<Rightarrow> jm_state \<Rightarrow> jm_state" where
  "setJob j job s = s\<lparr>activeJobs := AList.update j job (activeJobs s)\<rparr>"

definition act :: "action \<Rightarrow> jm_state \<Rightarrow> jm_state" where
  "act a s = s\<lparr>trace := trace s @ [a]\<rparr>"

definition emit :: "event \<Rightarrow> jm_state \<Rightarrow> jm_state" where
  "emit ev s = act (Emitted ev) s"

text \<open>The progress the time fields stand for, with the fixed estimate of 300 seconds.\<close>

definition progress_of_time :: "string \<times> string \<times> string \<Rightarrow> rat" where
  "progress_of_time t = (case t of (h, m, sec) \<Rightarrow> (let
       hours = the (parseInt h);
       minutes = the (parseInt m);
       seconds = the (parseFloat sec);
       currentTime = fadd (fadd (fmul (of_int hours) 3600) (fmul (of_int minutes) 60)) seconds;
       estimatedDuration = 300
     in min 100 (fmul (fdiv currentTime estimatedDuration) 100)))"

definition parseProgress :: "env \<Rightarrow> job_id \<Rightarrow> string \<Rightarrow> jm_state \<Rightarrow> jm_state" where
  "parseProgress e j stderr s = (case getJob s j of
       None \<Rightarrow> s
     | Some job0 \<Rightarrow> (let
         timeMatch = map_option fst (re_search time_at stderr);
         speedMatch = map_option fst (re_search speed_at stderr);
         fpsMatch = map_option fst (re_search fps_at stderr);
         bitrateMatch = map_option fst (re_search bitrate_at stderr);
         sizeMatch = map_option fst (re_search size_at stderr);
         job = (case timeMatch of
             Some t \<Rightarrow> job0\<lparr>progress := progress_of_time t\<rparr>
           | None \<Rightarrow> job0);
         eta = (case startTime job of
             Some st \<Rightarrow>
               if st \<noteq> 0 \<and> progress job > 0 then (let
                   elapsed = fsub (of_int (now e)) (of_int st);
                   remaining = fmul (fdiv elapsed (progress job)) (fsub 100 (progress job))
                 in Some (formatDuration (fdiv remaining 1000)))
               else None
           | None \<Rightarrow> None);
         progressData = \<lparr>
           pr_jobId = j,
           fileId = inputPath (config job),
           pr_status = status job,
           pr_progress = progress job,
           pr_speed = map_option (\<lambda>v. v @ ''x'') speedMatch,
           pr_fps = fpsMatch,
           pr_bitrate = bitrateMatch,
           pr_size = sizeMatch,
           pr_time = map_option (\<lambda>(h, m, sec). h @ '':'' @ m @ '':'' @ sec) timeMatch,
           pr_eta = eta\<rparr>
       in emit (ProgressEv progressData) (setJob j job s)))"

section \<open>The job manager (class JobManager)\<close>

text \<open>
  \<open>executeJob\<close> up to its \<open>await\<close>: the job becomes running, and the rest of the
  call is queued behind the code that is running now.
\<close>

definition executeJob :: "env \<Rightarrow> job_id \<Rightarrow> jm_state \<Rightarrow> jm_state" where
  "executeJob e j s = (case getJob s j of
       None \<Rightarrow> s
     | Some job \<Rightarrow>
         (setJob j (job\<lparr>status := Running, startTime := Some (now e)\<rparr>) (act (Admitted j) s))
           \<lparr>pending := pending s @ [j]\<rparr>)"

text \<open>\<open>maxParallelJobs\<close> is read from the settings at every call; it is the parameter \<open>K\<close>.\<close>

function processQueue :: "nat \<Rightarrow> env \<Rightarrow> jm_state \<Rightarrow> jm_state" where
  "processQueue K e s =
     (if length (runningJobs s) < K \<and> jobQueue s \<noteq> [] then
        (case getJob s (hd (jobQueue s)) of
           None \<Rightarrow> processQueue K e (s\<lparr>jobQueue := tl (jobQueue s)\<rparr>)
         | Some job \<Rightarrow>
             if status job \<noteq> Waiting then processQueue K e (s\<lparr>jobQueue := tl (jobQueue s)\<rparr>)
             else processQueue K e
                    (executeJob e (hd (jobQueue s))
                       (s\<lparr>jobQueue := tl (jobQueue s),
                          runningJobs := runningJobs s @ [hd (jobQueue s)]\<rparr>)))
      else s)"
  by pat_completeness auto
termination
  by (relation "measure (\<lambda>(K, e, s). length (jobQueue s))")
     (auto simp: executeJob_def getJob_def setJob_def act_def split: option.splits)

declare processQueue.simps [simp del]

text \<open>The \<open>catch\<close> block of \<open>executeJob\<close>, up to its call of \<open>processQueue\<close>.\<close>

definition failJob :: "job_id \<Rightarrow> string \<Rightarrow> jm_state \<Rightarrow> jm_state" where
  "failJob j msg s = (case getJob s j of
       None \<Rightarrow> s
     | Some job \<Rightarrow>
         emit (CompletedEv j False (Some msg))
           ((setJob j (job\<lparr>status := Failed, error := Some msg\<rparr>) s)
              \<lparr>runningJobs := filter (\<lambda>i. i \<noteq> j) (runningJobs s)\<rparr>))"

text \<open>
  \<open>executeJob\<close> after its \<open>await\<close>: the binary is looked for and the process is
  spawned with a fresh \<open>stderr\<close> buffer; an exception ends in the \<open>catch\<close> block.
\<close>

definition executeJob_resumed :: "nat \<Rightarrow> env \<Rightarrow> job_id \<Rightarrow> jm_state \<Rightarrow> jm_state" where
  "executeJob_resumed K e j s = (case getJob s j of
       None \<Rightarrow> s
     | Some job \<Rightarrow> (let args = buildFfmpegArgs e (config job) in
         if \<not> existsSync e (ffmpegPath s) then
           processQueue K e (failJob j (''FFmpeg binary not found at: '' @ ffmpegPath s) s)
         else (case spawnThrows e args of
             Some msg \<Rightarrow> processQueue K e (failJob j msg s)
           | None \<Rightarrow>
               (setJob j (job\<lparr>process := Some ChildProcess\<rparr>) (act (Spawned j args) s))
                 \<lparr>stderrBuf := (stderrBuf s)(j := [])\<rparr>)))"

text \<open>
  The suspended calls of \<open>executeJob\<close> are resumed in the order in which they
  were suspended, those that a resumed call suspends by way of \<open>processQueue\<close>
  included, before the event loop takes up anything else.
\<close>

function drain :: "nat \<Rightarrow> env \<Rightarrow> jm_state \<Rightarrow> jm_state" where
  "drain K e s = (case pending s of
       [] \<Rightarrow> s
     | j # rest \<Rightarrow> drain K e (executeJob_resumed K e j (s\<lparr>pending := rest\<rparr>)))"
  by pat_completeness auto
termination
proof (relation "measure (\<lambda>(K, e, s). length (jobQueue s) + length (pending s))")
  show "wf (measure (\<lambda>(K, e, s). length (jobQueue s) + length (pending s)))" by simp
next
  fix K e j rest and s :: jm_state
  assume p: "pending s = j # rest"
  have ex: "length (jobQueue (executeJob e' i t)) + length (pending (executeJob e' i t))
      \<le> Suc (length (jobQueue t) + length (pending t))" for e' i and t :: jm_state
    by (simp add: executeJob_def getJob_def setJob_def act_def split: option.splits)
  have pq: "length (jobQueue (processQueue K' e' t)) + length (pending (processQueue K' e' t))
      \<le> length (jobQueue t) + length (pending t)" for K' e' and t :: jm_state
  proof (induction K' e' t rule: processQueue.induct)
    case (1 K e t)
    show ?case
    proof (cases "length (runningJobs t) < K \<and> jobQueue t \<noteq> []")
      case False
      then have "processQueue K e t = t" by (subst processQueue.simps) auto
      then show ?thesis by simp
    next
      case True
      then obtain i q where q: "jobQueue t = i # q" by (cases "jobQueue t") auto
      show ?thesis
      proof (cases "getJob t (hd (jobQueue t))")
        case None
        have "processQueue K e t = processQueue K e (t\<lparr>jobQueue := tl (jobQueue t)\<rparr>)"
          using True None by (subst processQueue.simps) simp
        then show ?thesis using 1(1)[OF True None] q by simp
      next
        case (Some job)
        show ?thesis
        proof (cases "status job = Waiting")
          case False
          have "processQueue K e t = processQueue K e (t\<lparr>jobQueue := tl (jobQueue t)\<rparr>)"
            using True Some False by (subst processQueue.simps) simp
          then show ?thesis using 1(2)[OF True Some False] q by simp
        next
          case W: True
          let ?t = "t\<lparr>jobQueue := tl (jobQueue t), runningJobs := runningJobs t @ [hd (jobQueue t)]\<rparr>"
          have "processQueue K e t = processQueue K e (executeJob e (hd (jobQueue t)) ?t)"
            using True Some W by (subst processQueue.simps) simp
          moreover have "length (jobQueue (processQueue K e (executeJob e (hd (jobQueue t)) ?t)))
             + length (pending (processQueue K e (executeJob e (hd (jobQueue t)) ?t)))
             \<le> length (jobQueue (executeJob e (hd (jobQueue t)) ?t)) + length (pending (executeJob e (hd (jobQueue t)) ?t))"
            using 1(3)[OF True Some] W by simp
          ultimately show ?thesis using ex[of e "hd (jobQueue t)" ?t] q by simp
        qed
      qed
    qed
  qed
  have f: "length (jobQueue (failJob j msg t)) + length (pending (failJob j msg t))
      = length (jobQueue t) + length (pending t)" for msg and t :: jm_state
    by (simp add: failJob_def emit_def act_def setJob_def split: option.splits)
  have "length (jobQueue (executeJob_resumed K e j (s\<lparr>pending := rest\<rparr>)))
      + length (pending (executeJob_resumed K e j (s\<lparr>pending := rest\<rparr>)))
      \<le> length (jobQueue s) + length rest"
  proof (cases "getJob (s\<lparr>pending := rest\<rparr>) j")
    case None
    then show ?thesis by (simp add: executeJob_resumed_def)
  next
    case (Some job)
    have a: "length (jobQueue (processQueue K e (failJob j m (s\<lparr>pending := rest\<rparr>))))
      + length (pending (processQueue K e (failJob j m (s\<lparr>pending := rest\<rparr>))))
      \<le> length (jobQueue s) + length rest" for m
      using pq[of K e "failJob j m (s\<lparr>pending := rest\<rparr>)"] f[of m "s\<lparr>pending := rest\<rparr>"] by simp
    show ?thesis
      using Some a by (simp add: executeJob_resumed_def Let_def act_def setJob_def split: option.splits)
  qed
  with p show "((K, e, executeJob_resumed K e j (s\<lparr>pending := rest\<rparr>)), K, e, s)
      \<in> measure (\<lambda>(K, e, s). length (jobQueue s) + length (pending s))"
    by simp
qed

declare drain.simps [simp del]

definition startJob :: "nat \<Rightarrow> env \<Rightarrow> job_id \<Rightarrow> job_config \<Rightarrow> jm_state \<Rightarrow> js_error + jm_state" where
  "startJob K e j c s =
     (if \<not> existsSync e (inputPath c) then Inl (Error ''Input file does not exist'')
      else (let outputDir = dirname e (outputPath c) in
        case (if \<not> existsSync e outputDir then mkdirThrows e outputDir else None) of
          Some msg \<Rightarrow> Inl (Error msg)
        | None \<Rightarrow> (let
            c1 = (if existsSync e (outputPath c)
                  then c\<lparr>outputPath := uniqueName e outputDir (outputPath c) (now e)\<rparr>
                  else c);
            job = \<lparr>jobId = j, config = c1, process = None, status = Waiting, progress = 0,
                   startTime = None, error = None, outputSize = None\<rparr>
          in Inr (processQueue K e
                   (act (Submitted j) ((setJob j job s)\<lparr>jobQueue := jobQueue s @ [j]\<rparr>))))))"

definition cancelJob :: "nat \<Rightarrow> env \<Rightarrow> job_id \<Rightarrow> jm_state \<Rightarrow> js_error + jm_state" where
  "cancelJob K e j s = (case getJob s j of
       None \<Rightarrow> Inl (Error ''Job not found'')
     | Some job \<Rightarrow> (let
         s1 = (if process job \<noteq> None then act (Signalled j SIGKILL) s else s);
         s2 = setJob j (job\<lparr>status := Cancelled\<rparr>) s1;
         s3 = s2\<lparr>jobQueue := remove1 j (jobQueue s2)\<rparr>;
         s4 = s3\<lparr>runningJobs := remove1 j (runningJobs s3)\<rparr>
       in Inr (processQueue K e (emit (CompletedEv j False (Some ''Job cancelled'')) s4))))"

definition pauseJob :: "job_id \<Rightarrow> jm_state \<Rightarrow> js_error + jm_state" where
  "pauseJob j s = (case getJob s j of
       None \<Rightarrow> Inl (Error ''Job not found'')
     | Some job \<Rightarrow>
         if status job = Running \<and> process job \<noteq> None
         then Inr (setJob j (job\<lparr>status := Paused\<rparr>) (act (Signalled j SIGSTOP) s))
         else Inr s)"

definition resumeJob :: "job_id \<Rightarrow> jm_state \<Rightarrow> js_error + jm_state" where
  "resumeJob j s = (case getJob s j of
       None \<Rightarrow> Inl (Error ''Job not found'')
     | Some job \<Rightarrow>
         if status job = Paused \<and> process job \<noteq> None
         then Inr (setJob j (job\<lparr>status := Running\<rparr>) (act (Signalled j SIGCONT) s))
         else Inr s)"

definition terminal :: "job_status \<Rightarrow> bool" where
  "terminal st = (st = Completed \<or> st = Failed \<or> st = Cancelled)"

definition clearCompletedJobs :: "jm_state \<Rightarrow> jm_state" where
  "clearCompletedJobs s =
     s\<lparr>activeJobs := filter (\<lambda>(j, job). \<not> terminal (status job)) (activeJobs s)\<rparr>"

definition cleanup :: "jm_state \<Rightarrow> jm_state" where
  "cleanup s =
     s\<lparr>trace := trace s @ map (\<lambda>(j, job). Signalled j SIGKILL)
                   (filter (\<lambda>(j, job). process job \<noteq> None \<and> status job = Running) (activeJobs s)),
       activeJobs := [], jobQueue := [], runningJobs := []\<rparr>"

text \<open>The listener on \<open>ffmpeg.stderr\<close>.\<close>

definition onStderrData :: "env \<Rightarrow> job_id \<Rightarrow> string \<Rightarrow> jm_state \<Rightarrow> jm_state" where
  "onStderrData e j chunk s = (let stderr = stderrBuf s j @ chunk in
     parseProgress e j stderr (s\<lparr>stderrBuf := (stderrBuf s)(j := stderr)\<rparr>))"

definition show_code :: "int option \<Rightarrow> string" where
  "show_code code = (case code of None \<Rightarrow> ''null'' | Some c \<Rightarrow> show_int c)"

definition elapsed_since :: "env \<Rightarrow> int option \<Rightarrow> int" where
  "elapsed_since e st = (case st of None \<Rightarrow> 0 | Some t \<Rightarrow> if t \<noteq> 0 then now e - t else 0)"

text \<open>
  The listener on \<open>close\<close>.  It returns the exception that leaves it, if any
  (\<open>statSync\<close> on an input file that is gone), with the state as the statements
  before the exception left it.
\<close>

definition onClose :: "nat \<Rightarrow> env \<Rightarrow> job_id \<Rightarrow> int option \<Rightarrow> jm_state \<Rightarrow> js_error option \<times> jm_state" where
  "onClose K e j code s = (case getJob s j of
       None \<Rightarrow> (None, s)
     | Some job \<Rightarrow> (let s1 = s\<lparr>runningJobs := filter (\<lambda>i. i \<noteq> j) (runningJobs s)\<rparr> in
         if code = Some 0 then (let
             job1 = job\<lparr>status := Completed, progress := 100\<rparr>;
             job2 = (case fileSize e (outputPath (config job1)) of
                 Some sz \<Rightarrow> job1\<lparr>outputSize := Some sz\<rparr>
               | None \<Rightarrow> job1)
           in case fileSize e (inputPath (config job2)) of
                None \<Rightarrow> (Some (ENOENT (inputPath (config job2))), setJob j job2 s1)
              | Some inputSize \<Rightarrow> (let
                  outSize = (case outputSize job2 of Some n \<Rightarrow> n | None \<Rightarrow> 0);
                  ratio = (if inputSize > 0 then js_div (of_nat outSize) (of_nat inputSize) else Fin 1);
                  item = \<lparr>h_inputPath = inputPath (config job2),
                          h_outputPath = outputPath (config job2),
                          h_preset = preset_id (preset (config job2)),
                          originalSize = inputSize,
                          compressedSize = outSize,
                          compressionRatio = ratio,
                          duration = elapsed_since e (startTime job2),
                          h_status = Success,
                          h_error = None\<rparr>;
                  s2 = act (HistoryAdded item) s1;
                  s3 = emit (CompletedEv j True None) s2;
                  s4 = emit (LogInfo (JobCompletedMsg (inputPath (config job2)) outSize) (now e)) s3
                in (None, processQueue K e (setJob j job2 s4))))
         else (let
             msg = ''FFmpeg exited with code '' @ show_code code @ ''. Error: ''
                   @ slice_last 500 (stderrBuf s j);
             job1 = job\<lparr>status := Failed, error := Some msg\<rparr>
           in case fileSize e (inputPath (config job1)) of
                None \<Rightarrow> (Some (ENOENT (inputPath (config job1))), setJob j job1 s1)
              | Some inputSize \<Rightarrow> (let
                  item = \<lparr>h_inputPath = inputPath (config job1),
                          h_outputPath = outputPath (config job1),
                          h_preset = preset_id (preset (config job1)),
                          originalSize = inputSize,
                          compressedSize = 0,
                          compressionRatio = Fin 0,
                          duration = elapsed_since e (startTime job1),
                          h_status = HFailed,
                          h_error = Some msg\<rparr>;
                  s2 = act (HistoryAdded item) s1;
                  s3 = emit (CompletedEv j False (Some msg)) s2;
                  s4 = emit (LogError (JobFailedMsg (inputPath (config job1)) msg) (now e)) s3
                in (None, processQueue K e (setJob j job1 s4))))))"

text \<open>The listener on \<open>error\<close>.\<close>

definition onError :: "nat \<Rightarrow> env \<Rightarrow> job_id \<Rightarrow> string \<Rightarrow> jm_state \<Rightarrow> jm_state" where
  "onError K e j message s = (case getJob s j of
       None \<Rightarrow> s
     | Some job \<Rightarrow> (let
         s1 = s\<lparr>runningJobs := filter (\<lambda>i. i \<noteq> j) (runningJobs s)\<rparr>;
         msg = ''FFmpeg process error: '' @ message;
         s2 = setJob j (job\<lparr>status := Failed, error := Some msg\<rparr>) s1
       in processQueue K e (emit (CompletedEv j False (Some msg)) s2)))"

section \<open>Runs of the manager\<close>

text \<open>
  What one turn of the event loop delivers: a call of the public interface (with
  the identifier \<open>uuidv4()\<close> returns, for a submission) or an event of a child
  process.  A call that throws changes nothing.
\<close>

datatype op =
    StartJob job_id job_config
  | CancelJob job_id
  | PauseJob job_id
  | ResumeJob job_id
  | ClearCompletedJobs
  | Cleanup
  | StderrData job_id string
  | ProcessClose job_id "int option"
  | ProcessError job_id string

definition unless_thrown :: "jm_state \<Rightarrow> js_error + jm_state \<Rightarrow> jm_state" where
  "unless_thrown s r = (case r of Inl _ \<Rightarrow> s | Inr s' \<Rightarrow> s')"

fun call :: "nat \<Rightarrow> env \<Rightarrow> op \<Rightarrow> jm_state \<Rightarrow> jm_state" where
  "call K e (StartJob j c) s = unless_thrown s (startJob K e j c s)"
| "call K e (CancelJob j) s = unless_thrown s (cancelJob K e j s)"
| "call K e (PauseJob j) s = unless_thrown s (pauseJob j s)"
| "call K e (ResumeJob j) s = unless_thrown s (resumeJob j s)"
| "call K e ClearCompletedJobs s = clearCompletedJobs s"
| "call K e Cleanup s = cleanup s"
| "call K e (StderrData j chunk) s = onStderrData e j chunk s"
| "call K e (ProcessClose j code) s = snd (onClose K e j code s)"
| "call K e (ProcessError j message) s = onError K e j message s"

definition turn :: "nat \<Rightarrow> env \<Rightarrow> op \<Rightarrow> jm_state \<Rightarrow> jm_state" where
  "turn K e x s = drain K e (call K e x s)"

fun run :: "nat \<Rightarrow> (env \<times> op) list \<Rightarrow> jm_state \<Rightarrow> jm_state" where
  "run K [] s = s"
| "run K ((e, x) # xs) s = run K xs (turn K e x s)"

definition count_running :: "jm_state \<Rightarrow> nat" where
  "count_running s = length (filter (\<lambda>(j, job). status job = Running) (activeJobs s))"

text \<open>
  What the scheduler maintains, of the run list and the registry: the run list
  never exceeds the limit, and it holds every job that is running or paused.
\<close>

definition run_list_inv :: "nat \<Rightarrow> job_id list \<Rightarrow> (job_id \<times> active_job) list \<Rightarrow> bool" where
  "run_list_inv K rs aj =
     (length rs \<le> K
      \<and> distinct (map fst aj)
      \<and> (\<forall>j job. map_of aj j = Some job \<longrightarrow>
            (status job = Running \<or> status job = Paused) \<longrightarrow> j \<in> set rs))"

definition admission_inv :: "nat \<Rightarrow> jm_state \<Rightarrow> bool" where
  "admission_inv K s = run_list_inv K (runningJobs s) (activeJobs s)"

text \<open>
  The identifiers submitted and admitted so far, in order, read off the trace; and
  what first-in-first-out admission maintains: the jobs admitted so far followed by
  the queue are a subsequence of the submissions.
\<close>

fun submitted_id :: "action \<Rightarrow> job_id option" where
  "submitted_id (Submitted j) = Some j"
| "submitted_id _ = None"

fun admitted_id :: "action \<Rightarrow> job_id option" where
  "admitted_id (Admitted j) = Some j"
| "admitted_id _ = None"

definition submissions :: "jm_state \<Rightarrow> job_id list" where
  "submissions s = List.map_filter submitted_id (trace s)"

definition admissions :: "jm_state \<Rightarrow> job_id list" where
  "admissions s = List.map_filter admitted_id (trace s)"

fun history_entry :: "action \<Rightarrow> history_item option" where
  "history_entry (HistoryAdded h) = Some h"
| "history_entry _ = None"

text \<open>The entries handed to \<open>historyManager.addItem\<close> so far.\<close>

definition history_of :: "jm_state \<Rightarrow> history_item list" where
  "history_of s = List.map_filter history_entry (trace s)"

definition fifo_inv :: "jm_state \<Rightarrow> bool" where
  "fifo_inv s = subseq (admissions s @ jobQueue s) (submissions s)"

text \<open>
  What the statuses say about the queue and the admissions: a waiting job is in the
  queue, and a running or paused job has been admitted.
\<close>

definition status_inv :: "jm_state \<Rightarrow> bool" where
  "status_inv s =
     (distinct (map fst (activeJobs s))
      \<and> (\<forall>j job. getJob s j = Some job \<longrightarrow> status job = Waiting \<longrightarrow> j \<in> set (jobQueue s))
      \<and> (\<forall>j job. getJob s j = Some job \<longrightarrow> (status job = Running \<or> status job = Paused) \<longrightarrow>
             j \<in> set (admissions s)))"

section \<open>Concrete inputs\<close>

text \<open>A preset without streams, a file system in which only the path \<open>o\<close> is missing, and a job on them.\<close>

definition preset0 :: compression_preset where
  "preset0 = \<lparr>preset_id = ''p'', preset_name = ''p'', video = None, audio = None,
     removeVideo = None, removeAudio = None\<rparr>"

definition env0 :: env where
  "env0 = \<lparr>fileSize = (\<lambda>p. if p = ''o'' then None else Some 10),
     now = 1000, win32 = False, dirname = (\<lambda>p. ''d''),
     uniqueName = (\<lambda>d p t. p),
     mkdirThrows = (\<lambda>p. None), spawnThrows = (\<lambda>args. None)\<rparr>"

definition cfg0 :: job_config where
  "cfg0 = \<lparr>inputPath = ''i'', outputPath = ''o'', preset = preset0,
     targetSize = None, customSettings = None\<rparr>"

text \<open>Three submissions, then the first job's process exits with code 0.\<close>

definition ops3 :: "(env \<times> op) list" where
  "ops3 = [(env0, StartJob ''a'' cfg0), (env0, StartJob ''b'' cfg0), (env0, StartJob ''c'' cfg0),
           (env0, ProcessClose ''a'' (Some 0))]"

text \<open>
  One job that completes; two jobs under a limit of one; one job that is paused.
\<close>

definition ops_done :: "(env \<times> op) list" where
  "ops_done = [(env0, StartJob ''a'' cfg0), (env0, ProcessClose ''a'' (Some 0))]"

definition ops_two :: "(env \<times> op) list" where
  "ops_two = [(env0, StartJob ''a'' cfg0), (env0, StartJob ''b'' cfg0)]"

definition ops_paused :: "(env \<times> op) list" where
  "ops_paused = [(env0, StartJob ''a'' cfg0), (env0, PauseJob ''a'')]"

text \<open>
  File systems for the close handler: an input of 100,000,000 bytes with an
  output of 40,000,000 bytes, and an empty input with an output of 10 bytes.
\<close>

definition env_sizes :: "nat \<Rightarrow> nat \<Rightarrow> env" where
  "env_sizes inSize outSize = env0\<lparr>fileSize := (\<lambda>p. if p = ''i'' then Some inSize
                                                else if p = ''o'' then Some outSize else Some 10)\<rparr>"

definition ops_started :: "(env \<times> op) list" where
  "ops_started = [(env0, StartJob ''a'' cfg0)]"

definition ops_empty_input :: "(env \<times> op) list" where
  "ops_empty_input = [(env0, StartJob ''a'' cfg0), (env_sizes 0 10, ProcessClose ''a'' (Some 0))]"

text \<open>
  The input file is gone when the first job's process exits with code 1, a second
  job waiting; a process that could not be spawned: an \<open>error\<close> event, then a
  \<open>close\<close> event with a negative code.
\<close>

definition env_input_gone :: env where
  "env_input_gone = env0\<lparr>fileSize := (\<lambda>p. None)\<rparr>"

definition ops_input_gone :: "(env \<times> op) list" where
  "ops_input_gone = [(env0, StartJob ''a'' cfg0), (env0, StartJob ''b'' cfg0),
                     (env_input_gone, ProcessClose ''a'' (Some 1))]"

definition ops_spawn_error :: "(env \<times> op) list" where
  "ops_spawn_error = [(env0, StartJob ''a'' cfg0), (env0, ProcessError ''a'' ''x''),
                      (env0, ProcessClose ''a'' (Some (- 13)))]"

text \<open>A running job whose process has written \<open>boom\<close> to its diagnostic stream.\<close>

definition ops_stderr :: "(env \<times> op) list" where
  "ops_stderr = [(env0, StartJob ''a'' cfg0), (env0, StderrData ''a'' ''boom'')]"

section \<open>Doubles at work\<close>

text \<open>
  The doubles nearest to 0.1 and 0.5, and \<open>0.1 + 0.2\<close>, which is
  0.30000000000000004.
\<close>

lemma round_double_examples:
  "round_double (1 / 10) = 3602879701896397 / 36028797018963968
   \<and> round_double (1 / 2) = 1 / 2
   \<and> fadd (round_double (1 / 10)) (round_double (2 / 10)) = 1351079888211149 / 4503599627370496"
  by code_simp

text \<open>
  One second out of the 300 assumed is the progress 0.33333333333333337, and the
  time that remains after one second of work is 298.99999999999994 seconds, shown
  as \<open>4:58\<close>.
\<close>

lemma one_second_matches:
  "re_search time_at ''time=00:00:01.00'' = Some ((''00'', ''00'', ''01.00''), [])
   \<and> re_search speed_at ''time=00:00:01.00'' = None
   \<and> re_search fps_at ''time=00:00:01.00'' = None
   \<and> re_search bitrate_at ''time=00:00:01.00'' = None
   \<and> re_search size_at ''time=00:00:01.00'' = None
   \<and> parseInt ''00'' = Some 0 \<and> parseFloat ''01.00'' = Some 1"
  by code_simp

lemma one_second_progress:
  "fmul (fdiv (fadd (fadd (fmul 0 3600) (fmul 0 60)) 1) 300) 100 = 3002399751580331 / 9007199254740992"
  by code_simp

lemma one_second_remaining:
  "formatDuration (fdiv (fmul (fdiv (fsub 2000 1000) (3002399751580331 / 9007199254740992))
     (fsub 100 (3002399751580331 / 9007199254740992))) 1000) = ''4:58''"
  by code_simp


lemma eta_example:
  assumes "getJob s j = Some job" "startTime job = Some 1000"
  shows "trace (parseProgress (env0\<lparr>now := 2000\<rparr>) j ''time=00:00:01.00'' s) = trace s @
     [Emitted (ProgressEv
       \<lparr>pr_jobId = j, fileId = inputPath (config job), pr_status = status job,
          pr_progress = 3002399751580331 / 9007199254740992, pr_speed = None,
          pr_fps = None, pr_bitrate = None, pr_size = None,
          pr_time = Some ''00:00:01.00'', pr_eta = Some ''4:58''\<rparr>)]"
  using assms
  by (simp add: parseProgress_def progress_of_time_def one_second_matches one_second_progress
      one_second_remaining Let_def env0_def emit_def act_def setJob_def
      del: re_search.simps)

section \<open>Field lemmas and the loops unfolded\<close>

lemma setJob_fields [simp]:
  "activeJobs (setJob j job s) = AList.update j job (activeJobs s)"
  "runningJobs (setJob j job s) = runningJobs s"
  "jobQueue (setJob j job s) = jobQueue s"
  "pending (setJob j job s) = pending s"
  "trace (setJob j job s) = trace s"
  "stderrBuf (setJob j job s) = stderrBuf s"
  "ffmpegPath (setJob j job s) = ffmpegPath s"
  by (simp_all add: setJob_def)

lemma act_fields [simp]:
  "runningJobs (act a s) = runningJobs s"
  "jobQueue (act a s) = jobQueue s"
  "pending (act a s) = pending s"
  "activeJobs (act a s) = activeJobs s"
  "stderrBuf (act a s) = stderrBuf s"
  "ffmpegPath (act a s) = ffmpegPath s"
  "trace (act a s) = trace s @ [a]"
  by (simp_all add: act_def)

lemma emit_fields [simp]:
  "runningJobs (emit a s) = runningJobs s"
  "jobQueue (emit a s) = jobQueue s"
  "pending (emit a s) = pending s"
  "activeJobs (emit a s) = activeJobs s"
  "stderrBuf (emit a s) = stderrBuf s"
  "ffmpegPath (emit a s) = ffmpegPath s"
  "trace (emit a s) = trace s @ [Emitted a]"
  by (simp_all add: emit_def)

lemma getJob_fields [simp]:
  "getJob (s\<lparr>trace := t\<rparr>) = getJob s"
  "getJob (s\<lparr>pending := p\<rparr>) = getJob s"
  "getJob (s\<lparr>stderrBuf := b\<rparr>) = getJob s"
  "getJob (s\<lparr>jobQueue := q\<rparr>) = getJob s"
  "getJob (s\<lparr>runningJobs := r\<rparr>) = getJob s"
  "getJob (act a s) = getJob s"
  "getJob (emit ev s) = getJob s"
  by (simp_all add: getJob_def fun_eq_iff)

lemma getJob_setJob [simp]: "getJob (setJob j job s) i = (if i = j then Some job else getJob s i)"
  by (simp add: getJob_def update_conv')

text \<open>How the invariant of the run list moves with the run list and the registry.\<close>

lemma run_list_inv_update:
  assumes "run_list_inv K rs aj"
    and "status job = Running \<or> status job = Paused \<Longrightarrow> j \<in> set rs"
  shows "run_list_inv K rs (AList.update j job aj)"
  using assms unfolding run_list_inv_def
  by (auto simp: update_conv' distinct_update)

lemma run_list_inv_filter:
  assumes "run_list_inv K rs aj" "status job \<noteq> Running" "status job \<noteq> Paused"
  shows "run_list_inv K (filter (\<lambda>i. i \<noteq> j) rs) (AList.update j job aj)"
  using assms unfolding run_list_inv_def
  by (auto simp: update_conv' distinct_update intro: le_trans[OF length_filter_le])

lemma length_remove1_le: "length (remove1 x xs) \<le> length xs"
  by (induction xs) auto

lemma run_list_inv_remove1:
  assumes "run_list_inv K rs aj" "status job \<noteq> Running" "status job \<noteq> Paused"
  shows "run_list_inv K (remove1 j rs) (AList.update j job aj)"
  using assms unfolding run_list_inv_def
  by (auto simp: update_conv' distinct_update intro: le_trans[OF length_remove1_le])

lemma run_list_inv_push:
  assumes "run_list_inv K rs aj" "length rs < K"
  shows "run_list_inv K (rs @ [j]) (AList.update j job aj)"
  using assms unfolding run_list_inv_def
  by (auto simp: update_conv' distinct_update)

lemma run_list_inv_clear:
  assumes "run_list_inv K rs aj"
  shows "run_list_inv K rs (filter P aj)"
  using assms unfolding run_list_inv_def
  by (auto simp: distinct_map_filter dest!: map_of_SomeD intro!: map_of_is_SomeI)

lemma getJob_active:
  "admission_inv K s \<Longrightarrow> getJob s j = Some job \<Longrightarrow> status job = Running \<or> status job = Paused
     \<Longrightarrow> j \<in> set (runningJobs s)"
  by (auto simp: admission_inv_def run_list_inv_def getJob_def)

lemma processQueue_stop:
  "\<not> (length (runningJobs s) < K \<and> jobQueue s \<noteq> []) \<Longrightarrow> processQueue K e s = s"
  by (subst processQueue.simps) auto

lemma processQueue_skip:
  assumes "length (runningJobs s) < K" "jobQueue s = j # q"
    and "case getJob s j of None \<Rightarrow> True | Some job \<Rightarrow> status job \<noteq> Waiting"
  shows "processQueue K e s = processQueue K e (s\<lparr>jobQueue := q\<rparr>)"
  using assms by (subst processQueue.simps) (simp split: option.splits)

lemma processQueue_admit:
  assumes "length (runningJobs s) < K" "jobQueue s = j # q" "getJob s j = Some job" "status job = Waiting"
  shows "processQueue K e s
      = processQueue K e (executeJob e j (s\<lparr>jobQueue := q, runningJobs := runningJobs s @ [j]\<rparr>))"
  using assms by (subst processQueue.simps) simp

lemma jobQueue_executeJob [simp]: "jobQueue (executeJob e j s) = jobQueue s"
  by (simp add: executeJob_def split: option.splits)

lemma processQueue_preserves:
  assumes skip: "\<And>s j q. P s \<Longrightarrow> jobQueue s = j # q \<Longrightarrow> P (s\<lparr>jobQueue := q\<rparr>)"
    and admit: "\<And>s j q job. P s \<Longrightarrow> length (runningJobs s) < K \<Longrightarrow> jobQueue s = j # q \<Longrightarrow>
        getJob s j = Some job \<Longrightarrow> status job = Waiting \<Longrightarrow>
        P (executeJob e j (s\<lparr>jobQueue := q, runningJobs := runningJobs s @ [j]\<rparr>))"
    and "P s"
  shows "P (processQueue K e s)"
  using \<open>P s\<close>
proof (induction "length (jobQueue s)" arbitrary: s)
  case 0
  then show ?case by (simp add: processQueue_stop)
next
  case (Suc n)
  then obtain j q where q: "jobQueue s = j # q" "length q = n"
    by (cases "jobQueue s") auto
  show ?case
  proof (cases "length (runningJobs s) < K")
    case False
    then show ?thesis using Suc.prems by (simp add: processQueue_stop)
  next
    case lt: True
    show ?thesis
    proof (cases "case getJob s j of None \<Rightarrow> True | Some job \<Rightarrow> status job \<noteq> Waiting")
      case True
      have "P (processQueue K e (s\<lparr>jobQueue := q\<rparr>))"
        using Suc.hyps(1)[of "s\<lparr>jobQueue := q\<rparr>"] q skip[OF Suc.prems q(1)] by simp
      then show ?thesis using processQueue_skip[OF lt q(1) True] by simp
    next
      case False
      then obtain job where job: "getJob s j = Some job" "status job = Waiting"
        by (auto split: option.splits)
      let ?t = "executeJob e j (s\<lparr>jobQueue := q, runningJobs := runningJobs s @ [j]\<rparr>)"
      have "P (processQueue K e ?t)"
        using Suc.hyps(1)[of ?t] q admit[OF Suc.prems lt q(1) job] by simp
      then show ?thesis using processQueue_admit[OF lt q(1) job] by simp
    qed
  qed
qed

lemma drain_stop: "pending s = [] \<Longrightarrow> drain K e s = s"
  by (subst drain.simps) simp

lemma drain_step:
  "pending s = j # rest \<Longrightarrow> drain K e s = drain K e (executeJob_resumed K e j (s\<lparr>pending := rest\<rparr>))"
  by (subst drain.simps) simp

lemma drain_preserves:
  assumes "\<And>s j rest. P s \<Longrightarrow> pending s = j # rest \<Longrightarrow> P (executeJob_resumed K e j (s\<lparr>pending := rest\<rparr>))"
    and "P s"
  shows "P (drain K e s)"
  using assms
proof (induction K e s rule: drain.induct)
  case (1 K e s)
  show ?case
  proof (cases "pending s")
    case Nil
    then show ?thesis using 1(3) by (simp add: drain_stop)
  next
    case (Cons j rest)
    have "P (drain K e (executeJob_resumed K e j (s\<lparr>pending := rest\<rparr>)))"
      using 1(1)[OF Cons] 1(2) 1(2)[OF 1(3) Cons] by blast
    then show ?thesis using drain_step[OF Cons] by simp
  qed
qed


lemma inv_processQueue: "admission_inv K s \<Longrightarrow> admission_inv K (processQueue K e s)"
proof (rule processQueue_preserves[where P = "admission_inv K"])
  fix s j q job
  assume a: "admission_inv K s" "length (runningJobs s) < K" and g: "getJob s j = Some job"
  then show "admission_inv K (executeJob e j (s\<lparr>jobQueue := q, runningJobs := runningJobs s @ [j]\<rparr>))"
    by (simp add: executeJob_def admission_inv_def run_list_inv_push)
qed (simp_all add: admission_inv_def)

lemma inv_failJob: "admission_inv K s \<Longrightarrow> admission_inv K (failJob j msg s)"
  by (simp add: failJob_def admission_inv_def run_list_inv_filter split: option.splits)

lemma inv_executeJob_resumed:
  assumes "admission_inv K s"
  shows "admission_inv K (executeJob_resumed K e j s)"
proof (cases "getJob s j")
  case None
  then show ?thesis using assms by (simp add: executeJob_resumed_def)
next
  case (Some job)
  have "admission_inv K (processQueue K e (failJob j m s))" for m
    using assms by (intro inv_processQueue inv_failJob)
  moreover have "run_list_inv K (runningJobs s) (AList.update j (job\<lparr>process := Some ChildProcess\<rparr>) (activeJobs s))"
    using assms getJob_active[OF assms Some] by (intro run_list_inv_update) (auto simp: admission_inv_def)
  ultimately show ?thesis
    using Some by (simp add: executeJob_resumed_def Let_def admission_inv_def split: option.splits)
qed

lemma inv_drain: "admission_inv K s \<Longrightarrow> admission_inv K (drain K e s)"
proof (rule drain_preserves[where P = "admission_inv K"])
  fix t :: jm_state and j rest
  assume "admission_inv K t"
  then have "admission_inv K (t\<lparr>pending := rest\<rparr>)" by (simp add: admission_inv_def)
  then show "admission_inv K (executeJob_resumed K e j (t\<lparr>pending := rest\<rparr>))"
    by (rule inv_executeJob_resumed)
qed

lemma inv_startJob: "admission_inv K s \<Longrightarrow> startJob K e j c s = Inr s' \<Longrightarrow> admission_inv K s'"
  by (auto simp: startJob_def Let_def split: if_splits option.splits intro!: inv_processQueue)
     (auto simp: admission_inv_def intro!: run_list_inv_update)

lemma inv_cancelJob: "admission_inv K s \<Longrightarrow> cancelJob K e j s = Inr s' \<Longrightarrow> admission_inv K s'"
  by (auto simp: cancelJob_def Let_def split: option.splits intro!: inv_processQueue)
     (auto simp: admission_inv_def intro!: run_list_inv_remove1)

lemma inv_pauseJob: "admission_inv K s \<Longrightarrow> pauseJob j s = Inr s' \<Longrightarrow> admission_inv K s'"
  by (auto simp: pauseJob_def split: option.splits if_splits)
     (auto simp: admission_inv_def intro!: run_list_inv_update dest: getJob_active[unfolded admission_inv_def])

lemma inv_resumeJob: "admission_inv K s \<Longrightarrow> resumeJob j s = Inr s' \<Longrightarrow> admission_inv K s'"
  by (auto simp: resumeJob_def split: option.splits if_splits)
     (auto simp: admission_inv_def intro!: run_list_inv_update dest: getJob_active[unfolded admission_inv_def])

lemma inv_clearCompletedJobs: "admission_inv K s \<Longrightarrow> admission_inv K (clearCompletedJobs s)"
  by (simp add: admission_inv_def clearCompletedJobs_def run_list_inv_clear)

lemma inv_cleanup: "admission_inv K (cleanup s)"
  by (simp add: admission_inv_def cleanup_def run_list_inv_def)

lemma inv_parseProgress:
  assumes "admission_inv K s"
  shows "admission_inv K (parseProgress e j buf s)"
proof (cases "getJob s j")
  case None
  then show ?thesis using assms by (simp add: parseProgress_def)
next
  case (Some job0)
  have "run_list_inv K (runningJobs s) (AList.update j (job0\<lparr>progress := p\<rparr>) (activeJobs s))" for p
    using assms getJob_active[OF assms Some] by (intro run_list_inv_update) (auto simp: admission_inv_def)
  from this this[of "progress job0"] show ?thesis
    using Some by (simp add: parseProgress_def Let_def admission_inv_def split: option.splits)
qed

lemma inv_onStderrData: "admission_inv K s \<Longrightarrow> admission_inv K (onStderrData e j chunk s)"
  using inv_parseProgress[of K "s\<lparr>stderrBuf := b\<rparr>" for b]
  by (simp add: onStderrData_def Let_def admission_inv_def)

lemma inv_onError: "admission_inv K s \<Longrightarrow> admission_inv K (onError K e j m s)"
  by (auto simp: onError_def Let_def split: option.splits intro!: inv_processQueue)
     (auto simp: admission_inv_def intro!: run_list_inv_filter)

lemma inv_onClose: "admission_inv K s \<Longrightarrow> admission_inv K (snd (onClose K e j code s))"
  by (auto simp: onClose_def Let_def split: option.splits intro!: inv_processQueue)
     (auto simp: admission_inv_def intro!: run_list_inv_filter)

lemma inv_init: "admission_inv K (init p)"
  by (simp add: admission_inv_def init_def run_list_inv_def)

lemma inv_call: "admission_inv K s \<Longrightarrow> admission_inv K (call K e x s)"
  by (cases x)
     (auto simp: unless_thrown_def inv_clearCompletedJobs inv_cleanup inv_onStderrData inv_onError
        inv_onClose split: sum.splits
        intro: inv_startJob inv_cancelJob inv_pauseJob inv_resumeJob)

lemma inv_turn: "admission_inv K s \<Longrightarrow> admission_inv K (turn K e x s)"
  by (simp add: turn_def inv_drain inv_call)

lemma inv_run: "admission_inv K s \<Longrightarrow> admission_inv K (run K xs s)"
  by (induction xs arbitrary: s) (auto simp: inv_turn)

lemma inv_count: 
  assumes "admission_inv K s" shows "count_running s \<le> K"
proof -
  let ?R = "filter (\<lambda>(j, job). status job = Running) (activeJobs s)"
  have d: "distinct (map fst (activeJobs s))" using assms by (simp add: admission_inv_def run_list_inv_def)
  then have dR: "distinct (map fst ?R)" by (simp add: distinct_map_filter)
  have "set (map fst ?R) \<subseteq> set (runningJobs s)"
    using assms d unfolding admission_inv_def run_list_inv_def by auto
  then have "card (set (map fst ?R)) \<le> card (set (runningJobs s))" by (intro card_mono) auto
  then have "length ?R \<le> length (runningJobs s)"
    using distinct_card[OF dR] card_length[of "runningJobs s"] by simp
  then show ?thesis using assms by (simp add: count_running_def admission_inv_def run_list_inv_def)
qed


section \<open>The concurrency limit\<close>

text \<open>
  C1.  For every limit \<open>K\<close> and every sequence of submissions, cancellations,
  pauses, resumptions, clearings, shutdowns and process events, each with whatever
  the file system and the clock show at that moment, at most \<open>K\<close> jobs of the
  registry have status \<open>Running\<close> after every turn of the event loop.  (The lemmas
  \<open>inv_processQueue\<close>, \<open>inv_executeJob_resumed\<close> and \<open>inv_call\<close> give the same bound
  after every admission pass and every resumed \<open>executeJob\<close> inside a turn.)
\<close>

theorem running_jobs_bounded: "count_running (run K xs (init p)) \<le> K"
  by (intro inv_count inv_run inv_init)

theorem running_jobs_bounded_witness:
  "count_running (run 1 [(env0, StartJob ''a'' cfg0), (env0, StartJob ''b'' cfg0)] (init ''f'')) = 1
   \<and> count_running (run 1 [(env0, StartJob ''a'' cfg0), (env0, StartJob ''b'' cfg0)] (init ''f'')) \<le> 1"
proof -
  have "count_running (run 1 [(env0, StartJob ''a'' cfg0), (env0, StartJob ''b'' cfg0)] (init ''f'')) = 1"
    by code_simp
  then show ?thesis
    using running_jobs_bounded [of 1 "[(env0, StartJob ''a'' cfg0), (env0, StartJob ''b'' cfg0)]" "''f''"]
    by simp
qed

section \<open>Admission order\<close>

lemma map_filter_append [simp]: "List.map_filter f (xs @ ys) = List.map_filter f xs @ List.map_filter f ys"
  by (simp add: List.map_filter_def)

lemma subm_act [simp]:
  "submissions (act a s) = submissions s @ (case submitted_id a of Some j \<Rightarrow> [j] | None \<Rightarrow> [])"
  "admissions (act a s) = admissions s @ (case admitted_id a of Some j \<Rightarrow> [j] | None \<Rightarrow> [])"
  by (simp_all add: submissions_def admissions_def List.map_filter_def split: option.splits)

lemma subm_emit [simp]:
  "submissions (emit ev s) = submissions s" "admissions (emit ev s) = admissions s"
  by (simp_all add: emit_def)

lemma subm_fields [simp]:
  "submissions (setJob j job s) = submissions s" "admissions (setJob j job s) = admissions s"
  "submissions (s\<lparr>jobQueue := q\<rparr>) = submissions s" "admissions (s\<lparr>jobQueue := q\<rparr>) = admissions s"
  "submissions (s\<lparr>runningJobs := r\<rparr>) = submissions s" "admissions (s\<lparr>runningJobs := r\<rparr>) = admissions s"
  "submissions (s\<lparr>pending := pe\<rparr>) = submissions s" "admissions (s\<lparr>pending := pe\<rparr>) = admissions s"
  "submissions (s\<lparr>stderrBuf := b\<rparr>) = submissions s" "admissions (s\<lparr>stderrBuf := b\<rparr>) = admissions s"
  "submissions (s\<lparr>activeJobs := aj\<rparr>) = submissions s" "admissions (s\<lparr>activeJobs := aj\<rparr>) = admissions s"
  by (simp_all add: submissions_def admissions_def setJob_def)

lemma fifo_drop: "subseq (a @ j # q) s \<Longrightarrow> subseq (a @ q) s"
  by (rule subseq_order.order_trans[of _ "a @ j # q"]) (auto intro: list_emb_append_mono)

lemma fifo_remove1: "subseq (a @ q) s \<Longrightarrow> subseq (a @ remove1 j q) s"
proof -
  have "subseq (remove1 j q) q" by (induction q) auto
  then have "subseq (a @ remove1 j q) (a @ q)" by (auto intro: list_emb_append_mono)
  then show "subseq (a @ q) s \<Longrightarrow> ?thesis" by (rule subseq_order.order_trans)
qed

lemma fifo_nil: "subseq (a @ q) s \<Longrightarrow> subseq a s"
  by (rule subseq_order.order_trans[of _ "a @ q"]) auto

lemma fifo_push: "subseq (a @ q) s \<Longrightarrow> subseq (a @ q @ [j]) (s @ [j])"
  using list_emb_append_mono[of "(=)" "a @ q" s "[j]" "[j]"] by simp

lemma fifo_processQueue: "fifo_inv s \<Longrightarrow> fifo_inv (processQueue K e s)"
proof (rule processQueue_preserves[where P = fifo_inv])
  fix s j q
  assume "fifo_inv s" "jobQueue s = j # q"
  then show "fifo_inv (s\<lparr>jobQueue := q\<rparr>)" by (auto simp: fifo_inv_def dest: fifo_drop)
next
  fix s j q job
  assume "fifo_inv s" "jobQueue s = j # q" "getJob s j = Some job"
  then show "fifo_inv (executeJob e j (s\<lparr>jobQueue := q, runningJobs := runningJobs s @ [j]\<rparr>))"
    by (simp add: fifo_inv_def executeJob_def)
qed

lemma fifo_failJob: "fifo_inv s \<Longrightarrow> fifo_inv (failJob j m s)"
  by (simp add: failJob_def fifo_inv_def split: option.splits)

lemma fifo_executeJob_resumed: "fifo_inv s \<Longrightarrow> fifo_inv (executeJob_resumed K e j s)"
  by (auto simp: executeJob_resumed_def Let_def split: option.splits intro!: fifo_processQueue fifo_failJob)
     (simp add: fifo_inv_def)

lemma fifo_drain: "fifo_inv s \<Longrightarrow> fifo_inv (drain K e s)"
proof (rule drain_preserves[where P = fifo_inv])
  fix t :: jm_state and j rest
  assume "fifo_inv t"
  then have "fifo_inv (t\<lparr>pending := rest\<rparr>)" by (simp add: fifo_inv_def)
  then show "fifo_inv (executeJob_resumed K e j (t\<lparr>pending := rest\<rparr>))"
    by (rule fifo_executeJob_resumed)
qed

lemma fifo_parseProgress: "fifo_inv s \<Longrightarrow> fifo_inv (parseProgress e j buf s)"
  by (simp add: parseProgress_def Let_def fifo_inv_def split: option.splits)

lemma fifo_call: "fifo_inv s \<Longrightarrow> fifo_inv (call K e x s)"
proof (cases x)
  case (StartJob j c)
  assume "fifo_inv s"
  then show ?thesis using StartJob
    by (auto simp: unless_thrown_def startJob_def Let_def split: sum.splits if_splits option.splits
        intro!: fifo_processQueue)
       (simp_all add: fifo_inv_def fifo_push)
next
  case (CancelJob j)
  assume "fifo_inv s"
  then show ?thesis using CancelJob
    by (auto simp: unless_thrown_def cancelJob_def Let_def split: sum.splits option.splits
        intro!: fifo_processQueue)
       (auto simp: fifo_inv_def intro: fifo_remove1)
next
  case (ProcessClose j code)
  assume "fifo_inv s"
  then show ?thesis using ProcessClose
    by (auto simp: onClose_def Let_def split: option.splits intro!: fifo_processQueue)
       (simp_all add: fifo_inv_def)
next
  case (ProcessError j m)
  assume "fifo_inv s"
  then show ?thesis using ProcessError
    by (auto simp: onError_def Let_def split: option.splits intro!: fifo_processQueue)
       (simp_all add: fifo_inv_def)
next
  case Cleanup
  assume "fifo_inv s"
  then show ?thesis using Cleanup
    by (auto simp: cleanup_def fifo_inv_def submissions_def admissions_def List.map_filter_def
        filter_empty_conv dest: fifo_nil)
qed (auto simp: unless_thrown_def pauseJob_def resumeJob_def clearCompletedJobs_def onStderrData_def
       Let_def fifo_inv_def fifo_parseProgress[unfolded fifo_inv_def] split: sum.splits option.splits if_splits)

lemma fifo_run: "fifo_inv s \<Longrightarrow> fifo_inv (run K xs s)"
  by (induction xs arbitrary: s) (auto simp: turn_def fifo_drain fifo_call)

lemma subseq_distinct_filter:
  "subseq xs ys \<Longrightarrow> distinct ys \<Longrightarrow> xs = filter (\<lambda>x. x \<in> set xs) ys"
proof (induction rule: list_emb.induct)
  case (list_emb_Nil ys)
  then show ?case by simp
next
  case (list_emb_Cons xs ys y)
  then have "y \<notin> set xs" by (auto dest: list_emb_set)
  then show ?case using list_emb_Cons by simp
next
  case (list_emb_Cons2 x y xs ys)
  then have "x \<notin> set ys" by simp
  then have "filter (\<lambda>z. z = x \<or> z \<in> set xs) ys = filter (\<lambda>z. z \<in> set xs) ys"
    by (intro filter_cong) auto
  then show ?case using list_emb_Cons2 by simp
qed

lemma processQueue_preserves_skipping:
  assumes skip: "\<And>s j q. P s \<Longrightarrow> length (runningJobs s) < K \<Longrightarrow> jobQueue s = j # q \<Longrightarrow>
        (case getJob s j of None \<Rightarrow> True | Some job \<Rightarrow> status job \<noteq> Waiting) \<Longrightarrow>
        P (s\<lparr>jobQueue := q\<rparr>)"
    and admit: "\<And>s j q job. P s \<Longrightarrow> length (runningJobs s) < K \<Longrightarrow> jobQueue s = j # q \<Longrightarrow>
        getJob s j = Some job \<Longrightarrow> status job = Waiting \<Longrightarrow>
        P (executeJob e j (s\<lparr>jobQueue := q, runningJobs := runningJobs s @ [j]\<rparr>))"
    and "P s"
  shows "P (processQueue K e s)"
  using \<open>P s\<close>
proof (induction "length (jobQueue s)" arbitrary: s)
  case 0
  then show ?case by (simp add: processQueue_stop)
next
  case (Suc n)
  then obtain j q where q: "jobQueue s = j # q" "length q = n"
    by (cases "jobQueue s") auto
  show ?case
  proof (cases "length (runningJobs s) < K")
    case False
    then show ?thesis using Suc.prems by (simp add: processQueue_stop)
  next
    case lt: True
    show ?thesis
    proof (cases "case getJob s j of None \<Rightarrow> True | Some job \<Rightarrow> status job \<noteq> Waiting")
      case True
      have "P (processQueue K e (s\<lparr>jobQueue := q\<rparr>))"
        using Suc.hyps(1)[of "s\<lparr>jobQueue := q\<rparr>"] q skip[OF Suc.prems lt q(1) True] by simp
      then show ?thesis using processQueue_skip[OF lt q(1) True] by simp
    next
      case False
      then obtain job where job: "getJob s j = Some job" "status job = Waiting"
        by (auto split: option.splits)
      let ?t = "executeJob e j (s\<lparr>jobQueue := q, runningJobs := runningJobs s @ [j]\<rparr>)"
      have "P (processQueue K e ?t)"
        using Suc.hyps(1)[of ?t] q admit[OF Suc.prems lt q(1) job] by simp
      then show ?thesis using processQueue_admit[OF lt q(1) job] by simp
    qed
  qed
qed

text \<open>The one place where a job becomes running is the one place where an admission is marked.\<close>

lemma executeJob_admits:
  assumes "getJob s j = Some job"
  shows "getJob (executeJob e j s) j = Some (job\<lparr>status := Running, startTime := Some (now e)\<rparr>)
     \<and> (\<forall>i. i \<noteq> j \<longrightarrow> getJob (executeJob e j s) i = getJob s i)
     \<and> trace (executeJob e j s) = trace s @ [Admitted j]"
  using assms by (simp add: executeJob_def)

lemma distinct_setJob:
  "distinct (map fst (activeJobs s)) \<Longrightarrow> distinct (map fst (activeJobs (setJob j job s)))"
  by (simp add: distinct_update)

lemma status_inv_fields [simp]:
  "status_inv (s\<lparr>pending := pe\<rparr>) = status_inv s"
  "status_inv (s\<lparr>stderrBuf := b\<rparr>) = status_inv s"
  "status_inv (s\<lparr>runningJobs := r\<rparr>) = status_inv s"
  by (simp_all add: status_inv_def)

lemma status_inv_act: "status_inv s \<Longrightarrow> status_inv (act a s)"
  by (auto simp: status_inv_def split: option.splits)

lemma status_inv_emit: "status_inv s \<Longrightarrow> status_inv (emit ev s)"
  by (simp add: emit_def status_inv_act)

text \<open>A status other than waiting, running and paused can be recorded at any time.\<close>

lemma status_inv_setJob_other:
  assumes "status_inv s" "status job \<noteq> Waiting" "status job \<noteq> Running" "status job \<noteq> Paused"
  shows "status_inv (setJob j job s)"
  using assms by (auto simp: status_inv_def distinct_update)

text \<open>A record that keeps its status can be replaced.\<close>

lemma status_inv_setJob_same:
  assumes "status_inv s" "getJob s j = Some job0" "status job = status job0"
  shows "status_inv (setJob j job s)"
  using assms by (auto simp: status_inv_def distinct_update)

lemma status_inv_setJob_active:
  assumes "status_inv s" "status job = Running \<or> status job = Paused" "j \<in> set (admissions s)"
  shows "status_inv (setJob j job s)"
  using assms by (auto simp: status_inv_def distinct_update)

lemma status_inv_executeJob:
  assumes "status_inv s"
  shows "status_inv (executeJob e j s)"
proof (cases "getJob s j")
  case None
  then show ?thesis using assms by (simp add: executeJob_def)
next
  case (Some job)
  have "status_inv (setJob j (job\<lparr>status := Running, startTime := Some (now e)\<rparr>) (act (Admitted j) s))"
    using assms by (intro status_inv_setJob_active status_inv_act) simp_all
  then show ?thesis using Some by (simp add: executeJob_def)
qed

lemma status_inv_processQueue: "status_inv s \<Longrightarrow> status_inv (processQueue K e s)"
proof (rule processQueue_preserves_skipping[where P = status_inv])
  fix s j q
  assume "status_inv s" "jobQueue s = j # q"
    "case getJob s j of None \<Rightarrow> True | Some job \<Rightarrow> status job \<noteq> Waiting"
  then show "status_inv (s\<lparr>jobQueue := q\<rparr>)"
    unfolding status_inv_def by (simp split: option.splits) (metis option.distinct(1) option.inject)+
next
  fix s j q job
  assume a: "status_inv s" "jobQueue s = j # q" "getJob s j = Some job" "status job = Waiting"
  then show "status_inv (executeJob e j (s\<lparr>jobQueue := q, runningJobs := runningJobs s @ [j]\<rparr>))"
    unfolding status_inv_def executeJob_def by (auto simp: distinct_update)
qed

lemma status_inv_failJob: "status_inv s \<Longrightarrow> status_inv (failJob j m s)"
  by (auto simp: failJob_def split: option.splits intro!: status_inv_emit status_inv_setJob_other)


lemma status_inv_executeJob_resumed:
  assumes "status_inv s"
  shows "status_inv (executeJob_resumed K e j s)"
proof (cases "getJob s j")
  case None
  then show ?thesis using assms by (simp add: executeJob_resumed_def)
next
  case (Some job)
  have f: "status_inv (processQueue K e (failJob j m s))" for m
    using assms by (intro status_inv_processQueue status_inv_failJob)
  have "status_inv (setJob j (job\<lparr>process := Some ChildProcess\<rparr>) (act a s))" for a
    using assms Some by (intro status_inv_setJob_same[where ?job0.0 = job] status_inv_act) simp_all
  then show ?thesis
    using Some f by (simp add: executeJob_resumed_def Let_def split: option.splits)
qed

lemma status_inv_drain: "status_inv s \<Longrightarrow> status_inv (drain K e s)"
proof (rule drain_preserves[where P = status_inv])
  fix t :: jm_state and j rest
  assume "status_inv t"
  then have "status_inv (t\<lparr>pending := rest\<rparr>)" by simp
  then show "status_inv (executeJob_resumed K e j (t\<lparr>pending := rest\<rparr>))"
    by (rule status_inv_executeJob_resumed)
qed

lemma status_inv_startJob:
  assumes "status_inv s" "startJob K e j c s = Inr s'"
  shows "status_inv s'"
proof -
  have "status_inv (act (Submitted j) ((setJob j job s)\<lparr>jobQueue := jobQueue s @ [j]\<rparr>))"
    if "status job = Waiting" for job
    using assms(1) that unfolding status_inv_def by (auto simp: distinct_update)
  then show ?thesis
    using assms(2)
    by (auto simp: startJob_def Let_def split: if_splits option.splits intro!: status_inv_processQueue)
qed

lemma status_inv_cancelJob:
  assumes "status_inv s" "cancelJob K e j s = Inr s'"
  shows "status_inv s'"
proof -
  have "status_inv (emit ev ((setJob j (job\<lparr>status := Cancelled\<rparr>) t)
      \<lparr>jobQueue := remove1 j (jobQueue t), runningJobs := r\<rparr>))"
    if "status_inv t" for ev job r and t :: jm_state
    using that unfolding status_inv_def by (auto simp: distinct_update emit_def)
  from this[of s] this[of "act (Signalled j SIGKILL) s"] show ?thesis
    using assms status_inv_act[OF assms(1), of "Signalled j SIGKILL"]
    by (auto simp: cancelJob_def Let_def split: option.splits if_splits intro!: status_inv_processQueue)
qed

lemma status_inv_pauseJob:
  assumes "status_inv s" "pauseJob j s = Inr s'"
  shows "status_inv s'"
  using assms unfolding status_inv_def
  by (auto simp: pauseJob_def distinct_update split: option.splits if_splits)

lemma status_inv_resumeJob:
  assumes "status_inv s" "resumeJob j s = Inr s'"
  shows "status_inv s'"
  using assms unfolding status_inv_def
  by (auto simp: resumeJob_def distinct_update split: option.splits if_splits)

lemma getJob_filter:
  assumes "distinct (map fst al)" "map_of (filter P al) j = Some job"
  shows "map_of al j = Some job"
  using assms by (auto dest!: map_of_SomeD intro!: map_of_is_SomeI)

lemma status_inv_clearCompletedJobs: "status_inv s \<Longrightarrow> status_inv (clearCompletedJobs s)"
  unfolding status_inv_def clearCompletedJobs_def getJob_def admissions_def
  by (auto simp: distinct_map_filter dest: getJob_filter)

lemma status_inv_cleanup: "status_inv (cleanup s)"
  by (simp add: status_inv_def cleanup_def getJob_def)

lemma status_inv_parseProgress:
  assumes "status_inv s"
  shows "status_inv (parseProgress e j buf s)"
proof (cases "getJob s j")
  case None
  then show ?thesis using assms by (simp add: parseProgress_def)
next
  case (Some job0)
  have "status_inv (emit ev (setJob j (job0\<lparr>progress := p\<rparr>) s))" for p ev
    using assms Some by (intro status_inv_emit status_inv_setJob_same[where ?job0.0 = job0]) simp_all
  from this this[of _ "progress job0"] show ?thesis
    using Some by (simp add: parseProgress_def Let_def split: option.splits)
qed

lemma status_inv_onStderrData: "status_inv s \<Longrightarrow> status_inv (onStderrData e j chunk s)"
  using status_inv_parseProgress[of "s\<lparr>stderrBuf := b\<rparr>" for b]
  by (simp add: onStderrData_def Let_def)

lemma status_inv_onError: "status_inv s \<Longrightarrow> status_inv (onError K e j m s)"
  by (auto simp: onError_def Let_def split: option.splits
      intro!: status_inv_processQueue status_inv_emit status_inv_setJob_other)

lemma status_inv_onClose: "status_inv s \<Longrightarrow> status_inv (snd (onClose K e j code s))"
  by (auto simp: onClose_def Let_def split: option.splits
      intro!: status_inv_processQueue status_inv_emit status_inv_setJob_other status_inv_act)

lemma status_inv_call: "status_inv s \<Longrightarrow> status_inv (call K e x s)"
  by (cases x)
     (auto simp: unless_thrown_def status_inv_clearCompletedJobs status_inv_cleanup
        status_inv_onStderrData status_inv_onError status_inv_onClose split: sum.splits
        intro: status_inv_startJob status_inv_cancelJob status_inv_pauseJob status_inv_resumeJob)

lemma status_inv_run: "status_inv s \<Longrightarrow> status_inv (run K xs s)"
  by (induction xs arbitrary: s) (auto simp: turn_def status_inv_drain status_inv_call)

lemma status_inv_init: "status_inv (init p)"
  by (simp add: status_inv_def init_def getJob_def)


lemma processQueue_admits_waiting:
  "\<exists>ads. trace (processQueue K e s) = trace s @ map Admitted ads
     \<and> (\<forall>j \<in> set ads. (\<exists>job. getJob s j = Some job \<and> status job = Waiting)
            \<and> (\<exists>job. getJob (processQueue K e s) j = Some job \<and> status job = Running))
     \<and> (\<forall>j. j \<notin> set ads \<longrightarrow> getJob (processQueue K e s) j = getJob s j)"
proof (rule processQueue_preserves[where P = "\<lambda>t. \<exists>ads. trace t = trace s @ map Admitted ads
     \<and> (\<forall>j \<in> set ads. (\<exists>job. getJob s j = Some job \<and> status job = Waiting)
            \<and> (\<exists>job. getJob t j = Some job \<and> status job = Running))
     \<and> (\<forall>j. j \<notin> set ads \<longrightarrow> getJob t j = getJob s j)"])
  fix t i q jb
  assume "\<exists>ads. trace t = trace s @ map Admitted ads
     \<and> (\<forall>j \<in> set ads. (\<exists>job. getJob s j = Some job \<and> status job = Waiting)
            \<and> (\<exists>job. getJob t j = Some job \<and> status job = Running))
     \<and> (\<forall>j. j \<notin> set ads \<longrightarrow> getJob t j = getJob s j)"
    and i: "getJob t i = Some jb" "status jb = Waiting"
  then obtain ads where ads: "trace t = trace s @ map Admitted ads"
     "\<forall>j \<in> set ads. (\<exists>job. getJob s j = Some job \<and> status job = Waiting)
            \<and> (\<exists>job. getJob t j = Some job \<and> status job = Running)"
     "\<forall>j. j \<notin> set ads \<longrightarrow> getJob t j = getJob s j" by blast
  let ?t = "executeJob e i (t\<lparr>jobQueue := q, runningJobs := runningJobs t @ [i]\<rparr>)"
  have n: "i \<notin> set ads" using ads(2) i by auto
  then have si: "getJob s i = Some jb" using ads(3) i by auto
  have ex: "getJob ?t i = Some (jb\<lparr>status := Running, startTime := Some (now e)\<rparr>)"
    "\<And>k. k \<noteq> i \<Longrightarrow> getJob ?t k = getJob t k"
    "trace ?t = trace t @ [Admitted i]"
    using i(1) by (simp_all add: executeJob_def)
  have "trace ?t = trace s @ map Admitted (ads @ [i])" using ex(3) ads(1) by simp
  moreover have "\<forall>j \<in> set (ads @ [i]). (\<exists>job. getJob s j = Some job \<and> status job = Waiting)
            \<and> (\<exists>job. getJob ?t j = Some job \<and> status job = Running)"
  proof
    fix j assume "j \<in> set (ads @ [i])"
    then consider "j = i" | "j \<in> set ads" "j \<noteq> i" using n by auto
    then show "(\<exists>job. getJob s j = Some job \<and> status job = Waiting)
            \<and> (\<exists>job. getJob ?t j = Some job \<and> status job = Running)"
    proof cases
      case 1
      then show ?thesis using si i(2) ex(1) by simp
    next
      case 2
      then show ?thesis using ads(2) ex(2)[of j] by simp
    qed
  qed
  moreover have "\<forall>j. j \<notin> set (ads @ [i]) \<longrightarrow> getJob ?t j = getJob s j"
    using ads(3) ex(2) by auto
  ultimately show "\<exists>ads. trace ?t = trace s @ map Admitted ads
     \<and> (\<forall>j \<in> set ads. (\<exists>job. getJob s j = Some job \<and> status job = Waiting)
            \<and> (\<exists>job. getJob ?t j = Some job \<and> status job = Running))
     \<and> (\<forall>j. j \<notin> set ads \<longrightarrow> getJob ?t j = getJob s j)" by blast
next
  show "\<exists>ads. trace s = trace s @ map Admitted ads
     \<and> (\<forall>j \<in> set ads. (\<exists>job. getJob s j = Some job \<and> status job = Waiting)
            \<and> (\<exists>job. getJob s j = Some job \<and> status job = Running))
     \<and> (\<forall>j. j \<notin> set ads \<longrightarrow> getJob s j = getJob s j)" by (rule exI[of _ "[]"]) simp
qed simp

lemma subseq_pair: "x \<in> set xs \<Longrightarrow> y \<in> set ys \<Longrightarrow> subseq [x, y] (xs @ ys)"
  using list_emb_append_mono[of "(=)" "[x]" xs "[y]" ys] by (simp add: subseq_singleton_left)

lemma subseq_keeps_distinct: "subseq xs ys \<Longrightarrow> distinct ys \<Longrightarrow> distinct xs"
  using subseq_distinct_filter[of xs ys] distinct_filter[of ys] by metis

text \<open>
  C2.  \<open>executeJob\<close> is the only place where a job becomes running out of the
  queue, and \<open>processQueue\<close> calls it on waiting jobs only (lemmas
  \<open>executeJob_admits\<close> and \<open>processQueue_admits_waiting\<close>).  After every sequence of
  operations and process events:
  \<^item> the jobs admitted so far (in the order in which \<open>executeJob\<close> made them
    running) followed by the jobs still in the queue (in queue order) form a
    subsequence of the submissions in their order, so nothing that happens, a
    completion included, reorders the queue;
  \<^item> every job whose status is \<open>Waiting\<close> is in the queue;
  \<^item> every job whose status is \<open>Running\<close> or \<open>Paused\<close> has been admitted;
  \<^item> hence a running or paused job was submitted before every job that is still
    waiting;
  \<^item> when the submitted identifiers are distinct, the admissions are exactly the
    submissions restricted to the admitted jobs, in the same order, and no waiting
    job is among them.
\<close>

theorem admission_is_fifo:
  "subseq (admissions (run K xs (init p)) @ jobQueue (run K xs (init p))) (submissions (run K xs (init p)))
   \<and> (\<forall>j job. getJob (run K xs (init p)) j = Some job \<longrightarrow> status job = Waiting \<longrightarrow>
         j \<in> set (jobQueue (run K xs (init p))))
   \<and> (\<forall>j job. getJob (run K xs (init p)) j = Some job \<longrightarrow> (status job = Running \<or> status job = Paused) \<longrightarrow>
         j \<in> set (admissions (run K xs (init p))))
   \<and> (\<forall>c d jc jd. getJob (run K xs (init p)) c = Some jc \<longrightarrow> status jc = Waiting \<longrightarrow>
         getJob (run K xs (init p)) d = Some jd \<longrightarrow> (status jd = Running \<or> status jd = Paused) \<longrightarrow>
         subseq [d, c] (submissions (run K xs (init p))))
   \<and> (distinct (submissions (run K xs (init p))) \<longrightarrow>
        admissions (run K xs (init p))
          = filter (\<lambda>j. j \<in> set (admissions (run K xs (init p)))) (submissions (run K xs (init p)))
        \<and> (\<forall>j job. getJob (run K xs (init p)) j = Some job \<longrightarrow> status job = Waiting \<longrightarrow>
              j \<notin> set (admissions (run K xs (init p)))))"
proof -
  define s where "s = run K xs (init p)"
  have "fifo_inv (init p)" by (simp add: fifo_inv_def init_def admissions_def submissions_def List.map_filter_def)
  then have "fifo_inv s" unfolding s_def by (rule fifo_run)
  then have f: "subseq (admissions s @ jobQueue s) (submissions s)" by (simp add: fifo_inv_def)
  have "status_inv s" unfolding s_def by (rule status_inv_run) (rule status_inv_init)
  then have w: "\<And>j job. getJob s j = Some job \<Longrightarrow> status job = Waiting \<Longrightarrow> j \<in> set (jobQueue s)"
    and r: "\<And>j job. getJob s j = Some job \<Longrightarrow> status job = Running \<or> status job = Paused \<Longrightarrow>
         j \<in> set (admissions s)"
    unfolding status_inv_def by blast+
  have o: "subseq [d, c] (submissions s)"
    if "getJob s c = Some jc" "status jc = Waiting" "getJob s d = Some jd"
       "status jd = Running \<or> status jd = Paused" for c d jc jd
    using subseq_pair[OF r[OF that(3,4)] w[OF that(1,2)]] f by (rule subseq_order.order_trans)
  have a: "subseq (admissions s) (submissions s)" using f by (rule fifo_nil)
  have d: "admissions s = filter (\<lambda>j. j \<in> set (admissions s)) (submissions s)"
    "\<And>j job. getJob s j = Some job \<Longrightarrow> status job = Waiting \<Longrightarrow> j \<notin> set (admissions s)"
    if "distinct (submissions s)"
  proof -
    show "admissions s = filter (\<lambda>j. j \<in> set (admissions s)) (submissions s)"
      using a that by (rule subseq_distinct_filter)
    have "distinct (admissions s @ jobQueue s)" using f that by (rule subseq_keeps_distinct)
    then show "j \<notin> set (admissions s)" if "getJob s j = Some job" "status job = Waiting" for j job
      using w[OF that] by auto
  qed
  show ?thesis unfolding s_def[symmetric] using f w r o d by blast
qed

theorem admission_is_fifo_witness:
  "admissions (run 1 ops3 (init ''f'')) = [''a'', ''b'']
   \<and> jobQueue (run 1 ops3 (init ''f'')) = [''c'']
   \<and> submissions (run 1 ops3 (init ''f'')) = [''a'', ''b'', ''c'']
   \<and> map_option status (getJob (run 1 ops3 (init ''f'')) ''a'') = Some Completed
   \<and> map_option status (getJob (run 1 ops3 (init ''f'')) ''b'') = Some Running
   \<and> map_option status (getJob (run 1 ops3 (init ''f'')) ''c'') = Some Waiting
   \<and> distinct (submissions (run 1 ops3 (init ''f'')))
   \<and> subseq (admissions (run 1 ops3 (init ''f'')) @ jobQueue (run 1 ops3 (init ''f'')))
        (submissions (run 1 ops3 (init ''f'')))
   \<and> ''c'' \<in> set (jobQueue (run 1 ops3 (init ''f'')))
   \<and> ''b'' \<in> set (admissions (run 1 ops3 (init ''f'')))
   \<and> ''c'' \<notin> set (admissions (run 1 ops3 (init ''f'')))
   \<and> subseq [''b'', ''c''] (submissions (run 1 ops3 (init ''f'')))
   \<and> admissions (run 1 ops3 (init ''f''))
        = filter (\<lambda>j. j \<in> set (admissions (run 1 ops3 (init ''f''))))
            (submissions (run 1 ops3 (init ''f'')))"
proof -
  have v: "admissions (run 1 ops3 (init ''f'')) = [''a'', ''b'']
      \<and> jobQueue (run 1 ops3 (init ''f'')) = [''c'']
      \<and> submissions (run 1 ops3 (init ''f'')) = [''a'', ''b'', ''c'']"
    by code_simp
  have st: "map_option status (getJob (run 1 ops3 (init ''f'')) ''a'') = Some Completed
      \<and> map_option status (getJob (run 1 ops3 (init ''f'')) ''b'') = Some Running
      \<and> map_option status (getJob (run 1 ops3 (init ''f'')) ''c'') = Some Waiting"
    by code_simp
  then obtain jb jc where j: "getJob (run 1 ops3 (init ''f'')) ''b'' = Some jb" "status jb = Running"
    "getJob (run 1 ops3 (init ''f'')) ''c'' = Some jc" "status jc = Waiting"
    by auto
  have di: "distinct (submissions (run 1 ops3 (init ''f'')))" using v by simp
  note t = admission_is_fifo [of 1 ops3 "''f''"]
  show ?thesis using t v st j di by blast
qed

section \<open>Cancel, pause and resume\<close>

lemma processQueue_keeps_job:
  assumes "getJob s j = Some job" "status job \<noteq> Waiting"
  shows "getJob (processQueue K e s) j = Some job"
proof (rule processQueue_preserves[where P = "\<lambda>t. getJob t j = Some job"])
  fix t i q jb
  assume "getJob t j = Some job" "getJob t i = Some jb" "status jb = Waiting"
  then show "getJob (executeJob e i (t\<lparr>jobQueue := q, runningJobs := runningJobs t @ [i]\<rparr>)) j = Some job"
    using assms(2) by (auto simp: executeJob_def)
qed (simp_all add: assms)

lemma processQueue_trace: "\<exists>ads. trace (processQueue K e s) = trace s @ map Admitted ads"
proof (rule processQueue_preserves[where P = "\<lambda>t. \<exists>ads. trace t = trace s @ map Admitted ads"])
  fix t i q jb
  assume "\<exists>ads. trace t = trace s @ map Admitted ads" "getJob t i = Some jb"
  then obtain ads where "trace t = trace s @ map Admitted ads" by blast
  then have "trace (executeJob e i (t\<lparr>jobQueue := q, runningJobs := runningJobs t @ [i]\<rparr>))
      = trace s @ map Admitted (ads @ [i])"
    using \<open>getJob t i = Some jb\<close> by (simp add: executeJob_def)
  then show "\<exists>ads. trace (executeJob e i (t\<lparr>jobQueue := q, runningJobs := runningJobs t @ [i]\<rparr>))
      = trace s @ map Admitted ads" by blast
next
  show "\<exists>ads. trace s = trace s @ map Admitted ads" by (rule exI[of _ "[]"]) simp
qed simp

lemma done_values:
  "map_option status (getJob (run 1 ops_done (init ''f'')) ''a'') = Some Completed
   \<and> map_option process (getJob (run 1 ops_done (init ''f'')) ''a'') = Some (Some ChildProcess)"
  by code_simp

lemma two_values:
  "map_option status (getJob (run 1 ops_two (init ''f'')) ''a'') = Some Running
   \<and> map_option process (getJob (run 1 ops_two (init ''f'')) ''a'') = Some (Some ChildProcess)
   \<and> map_option status (getJob (run 1 ops_two (init ''f'')) ''b'') = Some Waiting"
  by code_simp

text \<open>
  C3, as the code has it.  \<open>cancelJob\<close> looks at no status: for a job that is
  already completed, failed or cancelled it returns normally (the only error it
  raises is \<open>Job not found\<close>, for an unknown identifier), sends \<open>SIGKILL\<close> if the
  job still holds its process handle, records the status \<open>Cancelled\<close>, emits one
  more completion event with \<open>success = false\<close> and the error \<open>Job cancelled\<close>, and
  runs the admission pass, which adds nothing to the trace but admissions.
\<close>

theorem cancel_terminal_job:
  assumes "getJob s j = Some job" and "terminal (status job)"
  shows "\<exists>s' ads. cancelJob K e j s = Inr s'
     \<and> getJob s' j = Some (job\<lparr>status := Cancelled\<rparr>)
     \<and> trace s' = trace s @ (if process job \<noteq> None then [Signalled j SIGKILL] else [])
          @ [Emitted (CompletedEv j False (Some ''Job cancelled''))] @ map Admitted ads"
proof -
  let ?s1 = "if process job \<noteq> None then act (Signalled j SIGKILL) s else s"
  let ?t = "emit (CompletedEv j False (Some ''Job cancelled''))
      ((setJob j (job\<lparr>status := Cancelled\<rparr>) ?s1)
        \<lparr>jobQueue := remove1 j (jobQueue s), runningJobs := remove1 j (runningJobs s)\<rparr>)"
  have c: "cancelJob K e j s = Inr (processQueue K e ?t)"
    using assms(1) by (simp add: cancelJob_def Let_def)
  have "getJob ?t j = Some (job\<lparr>status := Cancelled\<rparr>)" by simp
  then have g: "getJob (processQueue K e ?t) j = Some (job\<lparr>status := Cancelled\<rparr>)"
    by (rule processQueue_keeps_job) simp
  obtain ads where "trace (processQueue K e ?t) = trace ?t @ map Admitted ads"
    using processQueue_trace by blast
  then have "trace (processQueue K e ?t) = trace s @ (if process job \<noteq> None then [Signalled j SIGKILL] else [])
          @ [Emitted (CompletedEv j False (Some ''Job cancelled''))] @ map Admitted ads"
    by simp
  with c g show ?thesis by blast
qed

theorem cancel_terminal_job_witness:
  "terminal (status (the (getJob (run 1 ops_done (init ''f'')) ''a'')))
   \<and> (\<exists>s' ads. cancelJob 1 env0 ''a'' (run 1 ops_done (init ''f'')) = Inr s'
     \<and> getJob s' ''a'' = Some ((the (getJob (run 1 ops_done (init ''f'')) ''a''))\<lparr>status := Cancelled\<rparr>)
     \<and> trace s' = trace (run 1 ops_done (init ''f'')) @ [Signalled ''a'' SIGKILL]
          @ [Emitted (CompletedEv ''a'' False (Some ''Job cancelled''))] @ map Admitted ads)"
proof -
  obtain job where j: "getJob (run 1 ops_done (init ''f'')) ''a'' = Some job"
    "status job = Completed" "process job = Some ChildProcess"
    using done_values by (cases "getJob (run 1 ops_done (init ''f'')) ''a''") auto
  then have t: "terminal (status job)" by (simp add: terminal_def)
  show ?thesis
    using cancel_terminal_job [OF j(1) t, of 1 env0] j t by simp
qed

text \<open>
  The claim as stated fails on a job that has completed: cancelling it reports no
  error, changes the recorded status from \<open>Completed\<close> to \<open>Cancelled\<close>, signals the
  process and emits a further completion event.
\<close>

theorem cancel_terminal_job_counterexample:
  "map_option status (getJob (run 1 ops_done (init ''f'')) ''a'') = Some Completed
   \<and> \<not> isl (cancelJob 1 env0 ''a'' (run 1 ops_done (init ''f'')))
   \<and> map_option status (getJob (projr (cancelJob 1 env0 ''a'' (run 1 ops_done (init ''f'')))) ''a'')
        = Some Cancelled
   \<and> drop (length (trace (run 1 ops_done (init ''f''))))
        (trace (projr (cancelJob 1 env0 ''a'' (run 1 ops_done (init ''f'')))))
        = [Signalled ''a'' SIGKILL, Emitted (CompletedEv ''a'' False (Some ''Job cancelled''))]"
  by code_simp


text \<open>
  C7, as the code has it.  On a job of the registry, \<open>pauseJob\<close> acts only when
  the job is running and holds a process: it sends \<open>SIGSTOP\<close> and records
  \<open>Paused\<close>, changing nothing else; \<open>resumeJob\<close> acts only when the job is paused
  and holds a process: it sends \<open>SIGCONT\<close> and records \<open>Running\<close>.  From every
  other state each of them returns normally with the state unchanged: no error
  is reported.
\<close>

theorem pause_resume_transitions:
  assumes "getJob s j = Some job"
  shows "(status job = Running \<and> process job \<noteq> None \<longrightarrow>
            (\<exists>s'. pauseJob j s = Inr s'
               \<and> getJob s' j = Some (job\<lparr>status := Paused\<rparr>)
               \<and> (\<forall>i. i \<noteq> j \<longrightarrow> getJob s' i = getJob s i)
               \<and> trace s' = trace s @ [Signalled j SIGSTOP]
               \<and> jobQueue s' = jobQueue s \<and> runningJobs s' = runningJobs s))
       \<and> (\<not> (status job = Running \<and> process job \<noteq> None) \<longrightarrow> pauseJob j s = Inr s)
       \<and> (status job = Paused \<and> process job \<noteq> None \<longrightarrow>
            (\<exists>s'. resumeJob j s = Inr s'
               \<and> getJob s' j = Some (job\<lparr>status := Running\<rparr>)
               \<and> (\<forall>i. i \<noteq> j \<longrightarrow> getJob s' i = getJob s i)
               \<and> trace s' = trace s @ [Signalled j SIGCONT]
               \<and> jobQueue s' = jobQueue s \<and> runningJobs s' = runningJobs s))
       \<and> (\<not> (status job = Paused \<and> process job \<noteq> None) \<longrightarrow> resumeJob j s = Inr s)"
  using assms by (auto simp: pauseJob_def resumeJob_def)

theorem pause_resume_transitions_witness:
  "(\<exists>s'. pauseJob ''a'' (run 1 ops_two (init ''f'')) = Inr s'
       \<and> map_option status (getJob s' ''a'') = Some Paused
       \<and> trace s' = trace (run 1 ops_two (init ''f'')) @ [Signalled ''a'' SIGSTOP])
   \<and> resumeJob ''a'' (run 1 ops_two (init ''f'')) = Inr (run 1 ops_two (init ''f''))"
proof -
  obtain job where j: "getJob (run 1 ops_two (init ''f'')) ''a'' = Some job"
    "status job = Running" "process job = Some ChildProcess"
    using two_values by (cases "getJob (run 1 ops_two (init ''f'')) ''a''") auto
  show ?thesis
    using pause_resume_transitions [OF j(1)] j(2,3) by auto
qed

text \<open>
  The claim as stated fails on a waiting job: \<open>pauseJob\<close> and \<open>resumeJob\<close> return
  normally, with the state unchanged, where the claim has them report an invalid
  state transition.
\<close>

theorem pause_resume_counterexample:
  "map_option status (getJob (run 1 ops_two (init ''f'')) ''b'') = Some Waiting
   \<and> pauseJob ''b'' (run 1 ops_two (init ''f'')) = Inr (run 1 ops_two (init ''f''))
   \<and> resumeJob ''b'' (run 1 ops_two (init ''f'')) = Inr (run 1 ops_two (init ''f''))"
proof -
  obtain job where j: "getJob (run 1 ops_two (init ''f'')) ''b'' = Some job" "status job = Waiting"
    using two_values by (cases "getJob (run 1 ops_two (init ''f'')) ''b''") auto
  then show ?thesis by (simp add: pauseJob_def resumeJob_def)
qed

section \<open>Shutdown\<close>

text \<open>
  C9 at a paused job.  After a submission and a pause, the job is paused and holds
  its process; \<open>cleanup\<close> discards the registry without sending that process any
  signal.  A running job, in the same place, is sent \<open>SIGKILL\<close>.
\<close>

theorem cleanup_spares_paused_job:
  "map_option status (getJob (run 1 ops_paused (init ''f'')) ''a'') = Some Paused
   \<and> map_option process (getJob (run 1 ops_paused (init ''f'')) ''a'') = Some (Some ChildProcess)
   \<and> trace (cleanup (run 1 ops_paused (init ''f''))) = trace (run 1 ops_paused (init ''f''))
   \<and> activeJobs (cleanup (run 1 ops_paused (init ''f''))) = []
   \<and> map_option status (getJob (run 1 ops_two (init ''f'')) ''a'') = Some Running
   \<and> drop (length (trace (run 1 ops_two (init ''f'')))) (trace (cleanup (run 1 ops_two (init ''f''))))
        = [Signalled ''a'' SIGKILL]"
  by code_simp

section \<open>Process exit\<close>

lemma started_values:
  "map_option (\<lambda>job. (inputPath (config job), outputPath (config job), outputSize job))
       (getJob (run 1 ops_started (init ''f'')) ''a'') = Some (''i'', ''o'', None)"
  by code_simp

lemma length_slice_last: "length (slice_last n s) \<le> n"
  by (simp add: slice_last_def)

lemma stderr_values:
  "map_option (\<lambda>job. (inputPath (config job), status job)) (getJob (run 1 ops_stderr (init ''f'')) ''a'')
      = Some (''i'', Running)
   \<and> stderrBuf (run 1 ops_stderr (init ''f'')) ''a'' = ''boom''
   \<and> show_code (Some 1) = ''1'' \<and> slice_last 500 ''boom'' = ''boom''"
  by code_simp

text \<open>
  C5, as the code has it.  When the process of a job of the registry closes with
  code 0 and the input file can be measured, the job is recorded \<open>Completed\<close> with
  progress 100, and one success entry is added to the history, followed by the
  completion event and the log event.  The entry's compressed size is the size of
  the output file (when the file is missing: the job's earlier output size, or 0),
  and its ratio is compressed size / original size when the original size is
  positive and 1 when it is 0.
\<close>

theorem exit_zero_completes:
  assumes "getJob s j = Some job" and "fileSize e (inputPath (config job)) = Some inputSize"
  shows "\<exists>s' item ads. onClose K e j (Some 0) s = (None, s')
     \<and> map_option status (getJob s' j) = Some Completed
     \<and> map_option progress (getJob s' j) = Some 100
     \<and> trace s' = trace s @ [HistoryAdded item, Emitted (CompletedEv j True None),
          Emitted (LogInfo (JobCompletedMsg (inputPath (config job)) (compressedSize item)) (now e))]
          @ map Admitted ads
     \<and> h_status item = Success \<and> h_error item = None
     \<and> originalSize item = inputSize
     \<and> compressedSize item = (case fileSize e (outputPath (config job)) of
           Some n \<Rightarrow> n
         | None \<Rightarrow> (case outputSize job of Some n \<Rightarrow> n | None \<Rightarrow> 0))
     \<and> compressionRatio item =
         (if inputSize > 0 then Fin (of_nat (compressedSize item) / of_nat inputSize) else Fin 1)"
proof -
  let ?job1 = "job\<lparr>status := Completed, progress := 100\<rparr>"
  let ?job2 = "case fileSize e (outputPath (config job)) of
                 Some sz \<Rightarrow> ?job1\<lparr>outputSize := Some sz\<rparr> | None \<Rightarrow> ?job1"
  let ?out = "case fileSize e (outputPath (config job)) of
           Some n \<Rightarrow> n | None \<Rightarrow> (case outputSize job of Some n \<Rightarrow> n | None \<Rightarrow> 0)"
  let ?item = "\<lparr>h_inputPath = inputPath (config job), h_outputPath = outputPath (config job),
      h_preset = preset_id (preset (config job)), originalSize = inputSize,
      compressedSize = ?out,
      compressionRatio = (if inputSize > 0 then js_div (of_nat ?out) (of_nat inputSize) else Fin 1),
      duration = elapsed_since e (startTime job), h_status = Success, h_error = None\<rparr>"
  let ?t = "setJob j ?job2
      (emit (LogInfo (JobCompletedMsg (inputPath (config job)) ?out) (now e))
        (emit (CompletedEv j True None)
          (act (HistoryAdded ?item) (s\<lparr>runningJobs := filter (\<lambda>i. i \<noteq> j) (runningJobs s)\<rparr>))))"
  have c: "onClose K e j (Some 0) s = (None, processQueue K e ?t)"
    using assms by (simp add: onClose_def Let_def split: option.splits)
  have "getJob ?t j = Some ?job2" by simp
  moreover have "status ?job2 \<noteq> Waiting" by (simp split: option.splits)
  ultimately have g: "getJob (processQueue K e ?t) j = Some ?job2"
    by (rule processQueue_keeps_job)
  obtain ads where tr: "trace (processQueue K e ?t) = trace ?t @ map Admitted ads"
    using processQueue_trace by blast
  have r: "compressionRatio ?item =
      (if inputSize > 0 then Fin (of_nat (compressedSize ?item) / of_nat inputSize) else Fin 1)"
    by (simp add: js_div_def)
  show ?thesis
    apply (rule exI[of _ "processQueue K e ?t"], rule exI[of _ ?item], rule exI[of _ ads])
    using c g tr r by (simp split: option.splits)
qed


text \<open>An input of 100,000,000 bytes and an output of 40,000,000 bytes record the ratio 2/5.\<close>

theorem exit_zero_completes_witness:
  "\<exists>s' item ads. onClose 1 (env_sizes 100000000 40000000) ''a'' (Some 0) (run 1 ops_started (init ''f''))
        = (None, s')
     \<and> map_option status (getJob s' ''a'') = Some Completed
     \<and> map_option progress (getJob s' ''a'') = Some 100
     \<and> trace s' = trace (run 1 ops_started (init ''f'')) @ [HistoryAdded item,
          Emitted (CompletedEv ''a'' True None),
          Emitted (LogInfo (JobCompletedMsg ''i'' 40000000) (now (env_sizes 100000000 40000000)))]
          @ map Admitted ads
     \<and> originalSize item = 100000000
     \<and> compressedSize item = 40000000
     \<and> compressionRatio item = Fin (2 / 5)"
proof -
  obtain job where j: "getJob (run 1 ops_started (init ''f'')) ''a'' = Some job"
    "inputPath (config job) = ''i''" "outputPath (config job) = ''o''"
    using started_values by (cases "getJob (run 1 ops_started (init ''f'')) ''a''") auto
  have i: "fileSize (env_sizes 100000000 40000000) (inputPath (config job)) = Some 100000000"
    using j by (simp add: env_sizes_def)
  have o: "fileSize (env_sizes 100000000 40000000) (outputPath (config job)) = Some 40000000"
    using j by (simp add: env_sizes_def)
  from exit_zero_completes [OF j(1) i, of 1] obtain s' item ads where h:
    "onClose 1 (env_sizes 100000000 40000000) ''a'' (Some 0) (run 1 ops_started (init ''f'')) = (None, s')"
    "map_option status (getJob s' ''a'') = Some Completed"
    "map_option progress (getJob s' ''a'') = Some 100"
    "trace s' = trace (run 1 ops_started (init ''f'')) @ [HistoryAdded item,
          Emitted (CompletedEv ''a'' True None),
          Emitted (LogInfo (JobCompletedMsg (inputPath (config job)) (compressedSize item))
            (now (env_sizes 100000000 40000000)))] @ map Admitted ads"
    "originalSize item = 100000000"
    "compressedSize item = (case fileSize (env_sizes 100000000 40000000) (outputPath (config job)) of
           Some n \<Rightarrow> n | None \<Rightarrow> (case outputSize job of Some n \<Rightarrow> n | None \<Rightarrow> 0))"
    "compressionRatio item =
         (if (100000000::nat) > 0 then Fin (of_nat (compressedSize item) / of_nat 100000000) else Fin 1)"
    by blast
  from h(6) o have c: "compressedSize item = 40000000" by simp
  with h(7) have "compressionRatio item = Fin (2 / 5)" by simp
  with h c j show ?thesis
    by (intro exI[of _ s'] exI[of _ item] exI[of _ ads]) simp
qed

text \<open>
  The claim as stated fails on an empty input file: with an output of 10 bytes
  the entry records the ratio 1, which is not 10 / 0.
\<close>

theorem exit_zero_ratio_counterexample:
  "map (\<lambda>h. (originalSize h, compressedSize h, compressionRatio h))
       (history_of (run 1 ops_empty_input (init ''f''))) = [(0, 10, Fin 1)]
   \<and> js_div (of_nat 10) (of_nat 0) = PosInf
   \<and> map compressionRatio (history_of (run 1 ops_empty_input (init ''f'')))
       \<noteq> map (\<lambda>h. js_div (of_nat (compressedSize h)) (of_nat (originalSize h)))
            (history_of (run 1 ops_empty_input (init ''f'')))"
  by code_simp

text \<open>
  The failure branch of the \<open>close\<close> listener and the \<open>error\<close> listener, for a job
  of the registry.  When the process closes with a code other than 0 (\<open>null\<close>
  included) and the input file can be measured, the job is recorded \<open>Failed\<close> with
  an error that ends in the last 500 characters at most of the diagnostic output,
  one failure entry with compressed size 0 and ratio 0 is added to the history, and
  a completion event and a log event carry the error.  When the process reports an
  error, the job is recorded \<open>Failed\<close> with the message of that error, and a
  completion event carries it.
\<close>

lemma nonzero_exit_fails_job:
  assumes "getJob s j = Some job"
  shows "(code \<noteq> Some 0 \<and> fileSize e (inputPath (config job)) = Some inputSize \<longrightarrow>
           (\<exists>s' tail ads. onClose K e j code s = (None, s')
              \<and> tail = slice_last 500 (stderrBuf s j) \<and> length tail \<le> 500
              \<and> getJob s' j = Some (job\<lparr>status := Failed,
                   error := Some (''FFmpeg exited with code '' @ show_code code @ ''. Error: '' @ tail)\<rparr>)
              \<and> trace s' = trace s @
                  [HistoryAdded \<lparr>h_inputPath = inputPath (config job),
                     h_outputPath = outputPath (config job),
                     h_preset = preset_id (preset (config job)),
                     originalSize = inputSize, compressedSize = 0, compressionRatio = Fin 0,
                     duration = elapsed_since e (startTime job), h_status = HFailed,
                     h_error = Some (''FFmpeg exited with code '' @ show_code code @ ''. Error: '' @ tail)\<rparr>,
                   Emitted (CompletedEv j False
                     (Some (''FFmpeg exited with code '' @ show_code code @ ''. Error: '' @ tail))),
                   Emitted (LogError (JobFailedMsg (inputPath (config job))
                     (''FFmpeg exited with code '' @ show_code code @ ''. Error: '' @ tail)) (now e))]
                  @ map Admitted ads))
       \<and> getJob (onError K e j message s) j
            = Some (job\<lparr>status := Failed, error := Some (''FFmpeg process error: '' @ message)\<rparr>)
       \<and> (\<exists>ads. trace (onError K e j message s) = trace s @
              [Emitted (CompletedEv j False (Some (''FFmpeg process error: '' @ message)))]
              @ map Admitted ads)"
proof (intro conjI impI)
  assume a: "code \<noteq> Some 0 \<and> fileSize e (inputPath (config job)) = Some inputSize"
  let ?msg = "''FFmpeg exited with code '' @ show_code code @ ''. Error: '' @ slice_last 500 (stderrBuf s j)"
  let ?job1 = "job\<lparr>status := Failed, error := Some ?msg\<rparr>"
  let ?item = "\<lparr>h_inputPath = inputPath (config job),
                     h_outputPath = outputPath (config job),
                     h_preset = preset_id (preset (config job)),
                     originalSize = inputSize, compressedSize = 0, compressionRatio = Fin 0,
                     duration = elapsed_since e (startTime job), h_status = HFailed,
                     h_error = Some ?msg\<rparr>"
  let ?t = "setJob j ?job1
      (emit (LogError (JobFailedMsg (inputPath (config job)) ?msg) (now e))
        (emit (CompletedEv j False (Some ?msg))
          (act (HistoryAdded ?item) (s\<lparr>runningJobs := filter (\<lambda>i. i \<noteq> j) (runningJobs s)\<rparr>))))"
  have c: "onClose K e j code s = (None, processQueue K e ?t)"
    using assms a by (simp add: onClose_def Let_def)
  have "getJob ?t j = Some ?job1" by simp
  then have g: "getJob (processQueue K e ?t) j = Some ?job1"
    by (rule processQueue_keeps_job) simp
  obtain ads where tr: "trace (processQueue K e ?t) = trace ?t @ map Admitted ads"
    using processQueue_trace by blast
  show "\<exists>s' tail ads. onClose K e j code s = (None, s')
              \<and> tail = slice_last 500 (stderrBuf s j) \<and> length tail \<le> 500
              \<and> getJob s' j = Some (job\<lparr>status := Failed,
                   error := Some (''FFmpeg exited with code '' @ show_code code @ ''. Error: '' @ tail)\<rparr>)
              \<and> trace s' = trace s @
                  [HistoryAdded \<lparr>h_inputPath = inputPath (config job),
                     h_outputPath = outputPath (config job),
                     h_preset = preset_id (preset (config job)),
                     originalSize = inputSize, compressedSize = 0, compressionRatio = Fin 0,
                     duration = elapsed_since e (startTime job), h_status = HFailed,
                     h_error = Some (''FFmpeg exited with code '' @ show_code code @ ''. Error: '' @ tail)\<rparr>,
                   Emitted (CompletedEv j False
                     (Some (''FFmpeg exited with code '' @ show_code code @ ''. Error: '' @ tail))),
                   Emitted (LogError (JobFailedMsg (inputPath (config job))
                     (''FFmpeg exited with code '' @ show_code code @ ''. Error: '' @ tail)) (now e))]
                  @ map Admitted ads"
    apply (rule exI[of _ "processQueue K e ?t"], rule exI[of _ "slice_last 500 (stderrBuf s j)"],
        rule exI[of _ ads])
    using c g tr by (simp add: length_slice_last)
next
  let ?msg = "''FFmpeg process error: '' @ message"
  let ?t = "emit (CompletedEv j False (Some ?msg))
      (setJob j (job\<lparr>status := Failed, error := Some ?msg\<rparr>)
         (s\<lparr>runningJobs := filter (\<lambda>i. i \<noteq> j) (runningJobs s)\<rparr>))"
  have c: "onError K e j message s = processQueue K e ?t"
    using assms by (simp add: onError_def Let_def)
  have "getJob ?t j = Some (job\<lparr>status := Failed, error := Some ?msg\<rparr>)" by simp
  then have g: "getJob (processQueue K e ?t) j = Some (job\<lparr>status := Failed, error := Some ?msg\<rparr>)"
    by (rule processQueue_keeps_job) simp
  obtain ads where tr: "trace (processQueue K e ?t) = trace ?t @ map Admitted ads"
    using processQueue_trace by blast
  show "getJob (onError K e j message s) j
            = Some (job\<lparr>status := Failed, error := Some (''FFmpeg process error: '' @ message)\<rparr>)"
    using c g by simp
  show "\<exists>ads. trace (onError K e j message s) = trace s @
              [Emitted (CompletedEv j False (Some (''FFmpeg process error: '' @ message)))]
              @ map Admitted ads"
    using c tr by (intro exI[of _ ads]) simp
qed

text \<open>
  A process that could not be spawned reports an error and then closes with a
  negative code, so both listeners run: the job ends \<open>Failed\<close> with the error of the
  \<open>close\<close> listener, one failure entry is in the history, and two completion events
  have been emitted.
\<close>

lemma spawn_error_then_close:
  "map_option status (getJob (run 1 ops_spawn_error (init ''f'')) ''a'') = Some Failed
   \<and> map_option error (getJob (run 1 ops_spawn_error (init ''f'')) ''a'')
        = Some (Some ''FFmpeg exited with code -13. Error: '')
   \<and> map (\<lambda>h. (compressedSize h, compressionRatio h, h_status h, h_error h))
        (history_of (run 1 ops_spawn_error (init ''f'')))
        = [(0, Fin 0, HFailed, Some ''FFmpeg exited with code -13. Error: '')]
   \<and> drop 2 (trace (run 1 ops_spawn_error (init ''f'')))
        = [Spawned ''a'' (buildFfmpegArgs env0 cfg0),
           Emitted (CompletedEv ''a'' False (Some ''FFmpeg process error: x'')),
           HistoryAdded \<lparr>h_inputPath = ''i'', h_outputPath = ''o'', h_preset = ''p'',
              originalSize = 10, compressedSize = 0, compressionRatio = Fin 0, duration = 0,
              h_status = HFailed, h_error = Some ''FFmpeg exited with code -13. Error: ''\<rparr>,
           Emitted (CompletedEv ''a'' False (Some ''FFmpeg exited with code -13. Error: '')),
           Emitted (LogError (JobFailedMsg ''i'' ''FFmpeg exited with code -13. Error: '') 1000)]"
  by code_simp

text \<open>
  C6 at an input file that is gone when the process exits.  Job \<open>a\<close> is running and
  job \<open>b\<close> waits behind it, under a limit of one; the input file of \<open>a\<close> is removed,
  and the process of \<open>a\<close> exits with code 1.  The failure branch of the \<open>close\<close>
  listener reads \<open>statSync(inputPath).size\<close> with no guard (the size of the output
  file, a few lines above, is read under \<open>existsSync\<close>), so the exception leaves the
  listener: the job has been marked \<open>Failed\<close> and taken off the run list, but no
  history entry is written, no completion event is emitted and \<open>processQueue\<close> is
  not called, so \<open>b\<close> stays waiting with nothing running.  With the input file in
  place, the same exit writes the entry and admits \<open>b\<close>.
\<close>

theorem runtime_failure_unhandled_fault:
  "map_option status (getJob (run 1 ops_two (init ''f'')) ''a'') = Some Running
   \<and> fst (onClose 1 env_input_gone ''a'' (Some 1) (run 1 ops_two (init ''f''))) = Some (ENOENT ''i'')
   \<and> map_option status (getJob (run 1 ops_input_gone (init ''f'')) ''a'') = Some Failed
   \<and> trace (run 1 ops_input_gone (init ''f'')) = trace (run 1 ops_two (init ''f''))
   \<and> history_of (run 1 ops_input_gone (init ''f'')) = []
   \<and> runningJobs (run 1 ops_input_gone (init ''f'')) = []
   \<and> jobQueue (run 1 ops_input_gone (init ''f'')) = [''b'']
   \<and> map_option status (getJob (run 1 ops_input_gone (init ''f'')) ''b'') = Some Waiting
   \<and> fst (onClose 1 env0 ''a'' (Some 1) (run 1 ops_two (init ''f''))) = None
   \<and> length (history_of (snd (onClose 1 env0 ''a'' (Some 1) (run 1 ops_two (init ''f''))))) = 1
   \<and> map_option status (getJob (snd (onClose 1 env0 ''a'' (Some 1) (run 1 ops_two (init ''f'')))) ''b'')
        = Some Running"
  by code_simp

end
